theory Spec2Isabelle
  imports Complex_Main "HOL-Library.Sublist"
begin

section \<open>Space Invaders: the per-frame simulation core\<close>

text \<open>
  A shallow embedding of the class \<open>SpaceInvadersGame\<close>. Grid coordinates, score, lives and
  level are integers; timers and the frame's \<open>deltaTime\<close> are real numbers (milliseconds).
  Mutation of \<open>this\<close> is explicit state passing: every method takes the game and returns
  the game after the call.

  The timers of the code are double-precision numbers, whose sums and differences are
  rounded; here they are exact. The two agree where the doubles are exact, as on whole
  numbers of milliseconds. A statement that depends on how much time a timer has counted
  is made for such frame times only.

  The renderer, the input managers and the synthesiser are collaborators outside the game.
  What the game sends to the synthesiser is kept: every call \<open>synthManager.play(effect)\<close>
  appends \<open>effect\<close> to the field \<open>played\<close>. The synthesiser's own mute flag is not part of
  the game, so \<open>toggleMute\<close> leaves the game as it is.
\<close>

subsection \<open>Entities and game state\<close>

definition GRID_WIDTH :: int where
  "GRID_WIDTH = 60"

definition GRID_HEIGHT :: int where
  "GRID_HEIGHT = 40"

record Point =
  x :: int
  y :: int

record Bullet = Point +
  isPlayerBullet :: bool

record Invader = Point +
  type :: int
  alive :: bool

record Barrier = Point +
  health :: int

text \<open>The cues of the synthesiser; \<open>GameOverSound\<close> is the cue \<open>gameOver\<close>.\<close>

datatype SoundEffect =
  PlayerShoot | EnemyShoot | Explosion | BarrierHit | PlayerHit
  | InvaderMove | LevelComplete | GameOverSound

record game =
  player :: Point
  invaders :: "Invader list"
  bullets :: "Bullet list"
  barriers :: "Barrier list"
  score :: int
  lives :: int
  gameOver :: bool
  paused :: bool
  started :: bool
  level :: int
  highScore :: int
  invaderMoveTimer :: real
  invaderMoveInterval :: real
  invaderDirection :: int
  invaderDropDistance :: int
  shootCooldown :: real
  shootInterval :: real
  enemyShootTimer :: real
  enemyShootInterval :: real
  played :: "SoundEffect list"

text \<open>\<open>synthManager.play(effect)\<close>, as seen from the game.\<close>

definition play :: "SoundEffect \<Rightarrow> game \<Rightarrow> game" where
  "play e s = s\<lparr>played := played s @ [e]\<rparr>"

text \<open>\<open>xs.splice(i, 1)\<close>: the list without its element at index \<open>i\<close>.\<close>

definition splice1 :: "nat \<Rightarrow> 'a list \<Rightarrow> 'a list" where
  "splice1 i xs = take i xs @ drop (Suc i) xs"

subsection \<open>Spawning and initialisation\<close>

definition invaderType :: "nat \<Rightarrow> int" where
  "invaderType row = (if row < 1 then 2 else if row < 3 then 1 else 0)"

definition freshInvaders :: "Invader list" where
  "freshInvaders =
     [\<lparr>x = 10 + int col * 4, y = 5 + int row * 3, type = invaderType row, alive = True\<rparr>.
        row \<leftarrow> [0..<5], col \<leftarrow> [0..<11]]"

definition spawnInvaders :: "game \<Rightarrow> game" where
  "spawnInvaders s =
     s\<lparr>invaders := freshInvaders,
       invaderMoveInterval := max 300 (800 - of_int (level s) * 100),
       invaderDirection := 1\<rparr>"

definition freshBarriers :: "Barrier list" where
  "freshBarriers =
     [\<lparr>x = baseX + int dx, y = (GRID_HEIGHT - 10) + int dy, health = 3\<rparr>.
        baseX \<leftarrow> [10, 22, 34, 46], dy \<leftarrow> [0..<3], dx \<leftarrow> [0..<6]]"

definition spawnBarriers :: "game \<Rightarrow> game" where
  "spawnBarriers s = s\<lparr>barriers := freshBarriers\<rparr>"

definition initGame :: "game \<Rightarrow> game" where
  "initGame s =
     spawnBarriers (spawnInvaders
       (s\<lparr>player := \<lparr>x = GRID_WIDTH div 2, y = GRID_HEIGHT - 3\<rparr>,
          lives := 3, score := 0, level := 1,
          gameOver := False, paused := False, started := False,
          bullets := []\<rparr>))"

text \<open>The constructor: the field initialisers, then \<open>initGame()\<close>.\<close>

definition fieldDefaults :: game where
  "fieldDefaults =
     \<lparr>player = \<lparr>x = 0, y = 0\<rparr>, invaders = [], bullets = [], barriers = [],
      score = 0, lives = 3, gameOver = False, paused = False, started = False,
      level = 1, highScore = 0,
      invaderMoveTimer = 0, invaderMoveInterval = 800, invaderDirection = 1,
      invaderDropDistance = 2, shootCooldown = 0, shootInterval = 300,
      enemyShootTimer = 0, enemyShootInterval = 1500, played = []\<rparr>"

definition newGame :: game where
  "newGame = initGame fieldDefaults"

subsection \<open>Input handlers\<close>

text \<open>
  The closures of \<open>setupInput\<close>: \<open>startGame\<close>, \<open>togglePause\<close>, \<open>shoot\<close> (the Space handler) and the
  restart handler; \<open>handleGamepadInput\<close> repeats their bodies. \<open>moveLeft\<close> and \<open>moveRight\<close> are
  the guarded assignments \<open>if (this.player.x > 1) this.player.x -= 2\<close> and
  \<open>if (this.player.x < GRID_WIDTH - 2) this.player.x += 2\<close>, which the gamepad and the
  keyboard block of \<open>update\<close> share; \<open>handleKeyboardMovement\<close> is that keyboard block.
\<close>

definition startGame :: "game \<Rightarrow> game" where
  "startGame s = (if \<not> started s \<and> \<not> gameOver s then s\<lparr>started := True\<rparr> else s)"

definition togglePause :: "game \<Rightarrow> game" where
  "togglePause s = (if started s \<and> \<not> gameOver s then s\<lparr>paused := \<not> paused s\<rparr> else s)"

definition shootBullet :: "game \<Rightarrow> game" where
  "shootBullet s =
     (if shootCooldown s \<le> 0
      then play PlayerShoot
             (s\<lparr>bullets := bullets s @
                    [\<lparr>x = x (player s), y = y (player s) - 1, isPlayerBullet = True\<rparr>],
                shootCooldown := shootInterval s\<rparr>)
      else s)"

definition shoot :: "game \<Rightarrow> game" where
  "shoot s =
     startGame (if started s \<and> \<not> gameOver s \<and> \<not> paused s then shootBullet s else s)"

definition restart :: "game \<Rightarrow> game" where
  "restart s = (if gameOver s then initGame s else s)"

definition moveLeft :: "game \<Rightarrow> game" where
  "moveLeft s =
     (if x (player s) > 1 then s\<lparr>player := (player s)\<lparr>x := x (player s) - 2\<rparr>\<rparr> else s)"

definition moveRight :: "game \<Rightarrow> game" where
  "moveRight s =
     (if x (player s) < GRID_WIDTH - 2
      then s\<lparr>player := (player s)\<lparr>x := x (player s) + 2\<rparr>\<rparr> else s)"

text \<open>
  What one frame reads from its collaborators: the scheduler's \<open>deltaTime\<close>, the gamepad
  (connection, left stick and D-pad x axes, the buttons just pressed), the keyboard's
  direction, and the number that \<open>Math.random()\<close> is drawn from. \<open>Math.random()\<close> returns a
  number in \<open>[0, 1)\<close>: it is the fractional part of \<open>entropy\<close>.
\<close>

record frame_input =
  deltaTime :: real
  connected :: bool
  leftStickX :: real
  dpadX :: real
  pressedA :: bool
  pressedStart :: bool
  pressedB :: bool
  pressedY :: bool
  keyDirX :: real
  entropy :: real

definition handleGamepadInput :: "frame_input \<Rightarrow> game \<Rightarrow> game" where
  "handleGamepadInput inp s =
     (if \<not> connected inp then s
      else
        let s1 = (if leftStickX inp < - 0.5 \<or> dpadX inp < - 0.5 then startGame (moveLeft s)
                  else if leftStickX inp > 0.5 \<or> dpadX inp > 0.5 then startGame (moveRight s)
                  else s);
            s2 = (if pressedA inp then shoot s1 else s1);
            s3 = (if pressedStart inp then togglePause s2 else s2);
            s4 = (if pressedB inp then restart s3 else s3)
        in s4)"

definition handleKeyboardMovement :: "frame_input \<Rightarrow> game \<Rightarrow> game" where
  "handleKeyboardMovement inp s =
     (if keyDirX inp \<noteq> 0
      then
        let s1 = startGame s;
            s2 = (if keyDirX inp < 0 then moveLeft s1 else s1);
            s3 = (if keyDirX inp > 0 then moveRight s2 else s2)
        in s3
      else s)"

subsection \<open>Enemy fire and the formation\<close>

text \<open>
  \<open>Math.floor(Math.random() * aliveInvaders.length)\<close> is an index of \<open>aliveInvaders\<close>, since
  the number drawn lies in \<open>[0, 1)\<close>.
\<close>

definition enemyShoot :: "real \<Rightarrow> game \<Rightarrow> game" where
  "enemyShoot rnd s =
     (let aliveInvaders = filter alive (invaders s) in
      if length aliveInvaders = 0 then s
      else
        let shooter = aliveInvaders ! nat \<lfloor>frac rnd * real (length aliveInvaders)\<rfloor>
        in play EnemyShoot
             (s\<lparr>bullets := bullets s @
                    [\<lparr>x = x shooter, y = y shooter + 1, isPlayerBullet = False\<rparr>]\<rparr>))"

definition atEdge :: "int \<Rightarrow> Invader \<Rightarrow> bool" where
  "atEdge dir invader \<longleftrightarrow>
     (dir = 1 \<and> x invader \<ge> GRID_WIDTH - 3) \<or> (dir = - 1 \<and> x invader \<le> 1)"

definition dropInvader :: "int \<Rightarrow> Invader \<Rightarrow> Invader" where
  "dropInvader d invader = (if alive invader then invader\<lparr>y := y invader + d\<rparr> else invader)"

definition slideInvader :: "int \<Rightarrow> Invader \<Rightarrow> Invader" where
  "slideInvader d invader = (if alive invader then invader\<lparr>x := x invader + d\<rparr> else invader)"

text \<open>
  One triggered step. The array \<open>aliveInvaders\<close> is filtered before the invaders move, but it
  holds the invader objects themselves, and moving does not change \<open>alive\<close>: after the move
  it is the alive invaders at their new positions. The final loop over it sets game over
  once for every alive invader that has reached the row above the player.
\<close>

definition reachedPlayer :: "Invader \<Rightarrow> game \<Rightarrow> game" where
  "reachedPlayer invader s =
     (if y invader \<ge> y (player s) - 1
      then play GameOverSound (s\<lparr>lives := 0, gameOver := True\<rparr>)
      else s)"

definition formationStep :: "game \<Rightarrow> game" where
  "formationStep s =
     (let shouldDrop = list_ex (atEdge (invaderDirection s)) (filter alive (invaders s));
          s1 = (if shouldDrop
                then s\<lparr>invaders := map (dropInvader (invaderDropDistance s)) (invaders s),
                       invaderDirection := invaderDirection s * (- 1)\<rparr>
                else s\<lparr>invaders := map (slideInvader (invaderDirection s)) (invaders s)\<rparr>);
          aliveInvaders = filter alive (invaders s1);
          s2 = (if length aliveInvaders > 0 then play InvaderMove s1 else s1)
      in fold reachedPlayer aliveInvaders s2)"

definition moveInvaders :: "real \<Rightarrow> game \<Rightarrow> game" where
  "moveInvaders dt s =
     (let s1 = s\<lparr>invaderMoveTimer := invaderMoveTimer s + dt\<rparr> in
      if invaderMoveTimer s1 \<ge> invaderMoveInterval s1
      then formationStep (s1\<lparr>invaderMoveTimer := 0\<rparr>)
      else s1)"

subsection \<open>Bullets and collisions\<close>

text \<open>
  \<open>updateBullets\<close> moves every bullet by one row, drops the bullets that left the grid, and
  then runs three loops over the bullet list, each from the last index down: against the
  invaders, against the barriers, against the player. A loop body that removes the bullet
  at its index \<open>i\<close> leaves the indices below \<open>i\<close> as they are, so every index read is in range.
\<close>

definition advanceBullet :: "Bullet \<Rightarrow> Bullet" where
  "advanceBullet b = (if isPlayerBullet b then b\<lparr>y := y b - 1\<rparr> else b\<lparr>y := y b + 1\<rparr>)"

definition onScreen :: "Bullet \<Rightarrow> bool" where
  "onScreen b \<longleftrightarrow> y b \<ge> 0 \<and> y b < GRID_HEIGHT"

definition hitsInvader :: "Bullet \<Rightarrow> Invader \<Rightarrow> bool" where
  "hitsInvader b invader \<longleftrightarrow> alive invader \<and> \<bar>x b - x invader\<bar> \<le> 1 \<and> y b = y invader"

text \<open>
  The inner loop over the invaders: the index of the first invader the bullet hits,
  if there is one.
\<close>

fun firstHit :: "Bullet \<Rightarrow> Invader list \<Rightarrow> nat option" where
  "firstHit b [] = None"
| "firstHit b (invader # invs) =
     (if hitsInvader b invader then Some 0 else map_option Suc (firstHit b invs))"

definition bulletVsInvaders :: "nat \<Rightarrow> game \<Rightarrow> game" where
  "bulletVsInvaders i s =
     (let bullet = bullets s ! i in
      if \<not> isPlayerBullet bullet then s
      else case firstHit bullet (invaders s) of
             None \<Rightarrow> s
           | Some k \<Rightarrow>
               let invader = invaders s ! k in
               play Explosion
                 (s\<lparr>invaders := (invaders s)[k := invader\<lparr>alive := False\<rparr>],
                    bullets := splice1 i (bullets s),
                    score := score s + (type invader + 1) * 10\<rparr>))"

text \<open>
  The loops \<open>for (let i = this.bullets.length - 1; i >= 0; i--)\<close>: the first argument is
  the number of indices still to visit, so \<open>Suc i\<close> visits index \<open>i\<close> next.
\<close>

primrec invaderCollisions :: "nat \<Rightarrow> game \<Rightarrow> game" where
  "invaderCollisions 0 s = s"
| "invaderCollisions (Suc i) s = invaderCollisions i (bulletVsInvaders i s)"

text \<open>
  The inner loop over the barriers, from the last index down: the index of the segment
  the bullet hits, if there is one.
\<close>

primrec lastHit :: "Bullet \<Rightarrow> Barrier list \<Rightarrow> nat \<Rightarrow> nat option" where
  "lastHit b bars 0 = None"
| "lastHit b bars (Suc j) =
     (if x b = x (bars ! j) \<and> y b = y (bars ! j) then Some j else lastHit b bars j)"

definition damageBarrier :: "nat \<Rightarrow> Barrier list \<Rightarrow> Barrier list" where
  "damageBarrier j bars =
     (let barrier = (bars ! j)\<lparr>health := health (bars ! j) - 1\<rparr> in
      if health barrier \<le> 0 then splice1 j bars else bars[j := barrier])"

definition bulletVsBarriers :: "nat \<Rightarrow> game \<Rightarrow> game" where
  "bulletVsBarriers i s =
     (let bullet = bullets s ! i in
      case lastHit bullet (barriers s) (length (barriers s)) of
        None \<Rightarrow> s
      | Some j \<Rightarrow>
          (play BarrierHit (s\<lparr>barriers := damageBarrier j (barriers s)\<rparr>))
            \<lparr>bullets := splice1 i (bullets s)\<rparr>)"

primrec barrierCollisions :: "nat \<Rightarrow> game \<Rightarrow> game" where
  "barrierCollisions 0 s = s"
| "barrierCollisions (Suc i) s = barrierCollisions i (bulletVsBarriers i s)"

definition hitsPlayer :: "Bullet \<Rightarrow> Point \<Rightarrow> bool" where
  "hitsPlayer b p \<longleftrightarrow> \<not> isPlayerBullet b \<and> \<bar>x b - x p\<bar> \<le> 1 \<and> y b = y p"

definition bulletVsPlayer :: "nat \<Rightarrow> game \<Rightarrow> game" where
  "bulletVsPlayer i s =
     (let bullet = bullets s ! i in
      if hitsPlayer bullet (player s)
      then
        let s1 = play PlayerHit (s\<lparr>bullets := splice1 i (bullets s), lives := lives s - 1\<rparr>)
        in if lives s1 \<le> 0 then play GameOverSound (s1\<lparr>gameOver := True\<rparr>) else s1
      else s)"

primrec playerCollisions :: "nat \<Rightarrow> game \<Rightarrow> game" where
  "playerCollisions 0 s = s"
| "playerCollisions (Suc i) s = playerCollisions i (bulletVsPlayer i s)"

definition pruneBullets :: "game \<Rightarrow> game" where
  "pruneBullets s = s\<lparr>bullets := filter onScreen (map advanceBullet (bullets s))\<rparr>"

definition resolveCollisions :: "game \<Rightarrow> game" where
  "resolveCollisions s =
     (let s1 = invaderCollisions (length (bullets s)) s;
          s2 = barrierCollisions (length (bullets s1)) s1
      in playerCollisions (length (bullets s2)) s2)"

definition updateBullets :: "game \<Rightarrow> game" where
  "updateBullets s = resolveCollisions (pruneBullets s)"

subsection \<open>Level completion and the frame\<close>

definition checkLevelComplete :: "game \<Rightarrow> game" where
  "checkLevelComplete s =
     (if length (filter alive (invaders s)) = 0
      then (spawnBarriers (spawnInvaders (play LevelComplete (s\<lparr>level := level s + 1\<rparr>))))
             \<lparr>bullets := []\<rparr>
      else s)"

text \<open>
  The body of \<open>update\<close> behind the gate, in two stages: \<open>advance\<close> runs the cooldown, the
  formation, enemy fire and the bullets; \<open>simulate\<close> then checks for a cleared level and
  updates the high score.
\<close>

definition advance :: "frame_input \<Rightarrow> game \<Rightarrow> game" where
  "advance inp s =
     (let s1 = (if shootCooldown s > 0
                then s\<lparr>shootCooldown := shootCooldown s - deltaTime inp\<rparr> else s);
          s2 = moveInvaders (deltaTime inp) s1;
          s3 = s2\<lparr>enemyShootTimer := enemyShootTimer s2 + deltaTime inp\<rparr>;
          s4 = (if enemyShootTimer s3 \<ge> enemyShootInterval s3
                then enemyShoot (entropy inp) (s3\<lparr>enemyShootTimer := 0\<rparr>) else s3)
      in updateBullets s4)"

definition simulate :: "frame_input \<Rightarrow> game \<Rightarrow> game" where
  "simulate inp s =
     (let s6 = checkLevelComplete (advance inp s)
      in if score s6 > highScore s6 then s6\<lparr>highScore := score s6\<rparr> else s6)"

definition update :: "frame_input \<Rightarrow> game \<Rightarrow> game" where
  "update inp s =
     (let s1 = handleKeyboardMovement inp (handleGamepadInput inp s) in
      if \<not> started s1 \<or> gameOver s1 \<or> paused s1 then s1 else simulate inp s1)"

subsection \<open>Runs of the game\<close>

text \<open>
  Between two frames the keyboard handlers may run: Space (shoot), P (pause), R (restart),
  M (mute, which leaves the game as it is).
\<close>

datatype event = KeySpace | KeyP | KeyR | KeyM | Frame frame_input

fun step :: "event \<Rightarrow> game \<Rightarrow> game" where
  "step KeySpace s = shoot s"
| "step KeyP s = togglePause s"
| "step KeyR s = restart s"
| "step KeyM s = s"
| "step (Frame inp) s = update inp s"

fun run :: "event list \<Rightarrow> game \<Rightarrow> game" where
  "run [] s = s"
| "run (e # es) s = run es (step e s)"

inductive reachable :: "game \<Rightarrow> bool" where
  reachable_init: "reachable newGame"
| reachable_step: "reachable s \<Longrightarrow> reachable (step e s)"

subsection \<open>Measures and invariants\<close>

text \<open>How often a cue has been sent to the synthesiser so far.\<close>

definition cues :: "SoundEffect \<Rightarrow> game \<Rightarrow> nat" where
  "cues c s = count_list (played s) c"

text \<open>
  The destroying interactions resolved so far: every one of them sends exactly one of the
  cues \<open>explosion\<close>, \<open>barrierHit\<close>, \<open>playerHit\<close>.
\<close>

definition hitCues :: "game \<Rightarrow> nat" where
  "hitCues s = cues Explosion s + cues BarrierHit s + cues PlayerHit s"

text \<open>The number of alive invaders.\<close>

definition aliveCount :: "game \<Rightarrow> nat" where
  "aliveCount s = length (filter alive (invaders s))"

text \<open>
  The health left in the barriers, and the barriers as they are kept: a segment whose
  health is no longer positive is removed.
\<close>

definition barrierHealth :: "game \<Rightarrow> int" where
  "barrierHealth s = sum_list (map health (barriers s))"

definition barriersOK :: "game \<Rightarrow> bool" where
  "barriersOK s \<longleftrightarrow> (\<forall>b\<in>set (barriers s). 1 \<le> health b)"



text \<open>The scores of the states a run passes through, the first state included.\<close>

fun scoresSeen :: "event list \<Rightarrow> game \<Rightarrow> int list" where
  "scoresSeen [] s = [score s]"
| "scoresSeen (e # es) s = score s # scoresSeen es (step e s)"

text \<open>
  The player's column stays on the grid and keeps the parity of its start column: the
  guards \<open>x > 1\<close> and \<open>x < GRID_WIDTH - 2\<close> go with steps of two cells.
\<close>

definition playerInRange :: "game \<Rightarrow> bool" where
  "playerInRange s \<longleftrightarrow>
     0 \<le> x (player s) \<and> x (player s) \<le> GRID_WIDTH - 2 \<and> even (x (player s))"

text \<open>The three phase flags encode one of four phases.\<close>

definition phaseConsistent :: "game \<Rightarrow> bool" where
  "phaseConsistent s \<longleftrightarrow>
     (paused s \<longrightarrow> started s) \<and> (gameOver s \<longrightarrow> started s) \<and> \<not> (paused s \<and> gameOver s)"

text \<open>Invader types are not negative, the score lies between 0 and the high score.\<close>

definition typesOK :: "Invader list \<Rightarrow> bool" where
  "typesOK vs \<longleftrightarrow> (\<forall>v\<in>set vs. 0 \<le> type v)"

definition scoreConsistent :: "game \<Rightarrow> bool" where
  "scoreConsistent s \<longleftrightarrow> 0 \<le> score s \<and> score s \<le> highScore s \<and> typesOK (invaders s)"

text \<open>What holds of the life counter: at most 3, and at least 1 while the game is not over.\<close>

definition livesOK :: "game \<Rightarrow> bool" where
  "livesOK s \<longleftrightarrow> lives s \<le> 3 \<and> (\<not> gameOver s \<longrightarrow> 1 \<le> lives s)"

subsection \<open>Concrete inputs, runs and states\<close>

text \<open>A frame with no gamepad and no key held, and a frame with a keyboard direction.\<close>

definition idleFrame :: "real \<Rightarrow> real \<Rightarrow> frame_input" where
  "idleFrame dt rnd =
     \<lparr>deltaTime = dt, connected = False, leftStickX = 0, dpadX = 0,
      pressedA = False, pressedStart = False, pressedB = False, pressedY = False,
      keyDirX = 0, entropy = rnd\<rparr>"

definition keyFrame :: "real \<Rightarrow> real \<Rightarrow> frame_input" where
  "keyFrame dt d = (idleFrame dt 0)\<lparr>keyDirX := d\<rparr>"

text \<open>The game after Space: started, nothing fired yet.\<close>

definition startedGame :: game where
  "startedGame = run [KeySpace] newGame"

text \<open>The game after Space (start) and P (pause).\<close>

definition pausedGame :: game where
  "pausedGame = run [KeySpace, KeyP] newGame"

text \<open>Fifteen frames with the left key held.\<close>

definition leftwards :: "event list" where
  "leftwards = replicate 15 (Frame (keyFrame 16 (- 1)))"

text \<open>
  The game after Space and seven frames of 700 ms: the formation has moved seven cells to
  the right, so its rightmost column stands at \<open>x = GRID_WIDTH - 3\<close>.
\<close>

definition edgeGame :: game where
  "edgeGame = run (KeySpace # replicate 7 (Frame (idleFrame 700 0))) newGame"

text \<open>
  Space (start), Space (fire) and nineteen frames of 16 ms: the bullet reaches the bottom
  invader of the column above the player.
\<close>

definition firstKill :: "event list" where
  "firstKill = KeySpace # KeySpace # replicate 19 (Frame (idleFrame 16 0))"

text \<open>
  Space, then 28 frames in which the enemy fires four times (frames 1, 4, 7 and 10, from
  rows 1 to 4 of the wave, three frames and three rows apart), so that the four bullets
  travel side by side and reach the player's row in the same frame.
\<close>

definition volley :: "event list" where
  "volley =
     KeySpace #
     map Frame
       ([idleFrame 1500 (33 / 110),
         idleFrame 350 0, idleFrame 350 0, idleFrame 800 (53 / 110),
         idleFrame 100 0, idleFrame 100 0, idleFrame 1300 (75 / 110),
         idleFrame 100 0, idleFrame 100 0, idleFrame 1300 (97 / 110)]
        @ replicate 18 (idleFrame 1 0))"

text \<open>
  A started game in which every invader of the wave is dead, with a bullet in flight, one
  worn barrier segment left, two lives and the score of a full wave.
\<close>

definition clearedGame :: game where
  "clearedGame =
     (run [KeySpace] newGame)
       \<lparr>invaders := map (\<lambda>v. v\<lparr>alive := False\<rparr>) freshInvaders,
        bullets := [\<lparr>x = 30, y = 20, isPlayerBullet = False\<rparr>],
        barriers := [\<lparr>x = 10, y = 30, health = 1\<rparr>],
        score := 990, highScore := 990, lives := 2\<rparr>"

text \<open>A started game whose last alive invader has a player bullet right below it.\<close>

definition lastInvaderGame :: game where
  "lastInvaderGame =
     startedGame
       \<lparr>invaders := [\<lparr>x = 30, y = 20, type = 0, alive = True\<rparr>],
        bullets := [\<lparr>x = 30, y = 21, isPlayerBullet = True\<rparr>]\<rparr>"

text \<open>
  A started game with one life left, the last alive invader of the wave with a player
  bullet right below it, and an enemy bullet right above the player.
\<close>

definition lastStand :: game where
  "lastStand =
     startedGame
       \<lparr>invaders := (map (\<lambda>v. v\<lparr>alive := False\<rparr>) freshInvaders)
                       [54 := \<lparr>x = 50, y = 17, type = 0, alive = True\<rparr>],
        bullets := [\<lparr>x = 50, y = 18, isPlayerBullet = True\<rparr>,
                    \<lparr>x = 30, y = 36, isPlayerBullet = False\<rparr>],
        score := 980, highScore := 980, lives := 1\<rparr>"

text \<open>
  A started game with one invader standing on a barrier segment and a single player bullet
  right below them: the bullet could match the invader rule and the barrier rule.
\<close>

definition straddle :: game where
  "straddle =
     startedGame
       \<lparr>invaders := [\<lparr>x = 12, y = 30, type = 2, alive = True\<rparr>],
        barriers := [\<lparr>x = 12, y = 30, health = 3\<rparr>],
        bullets := [\<lparr>x = 12, y = 31, isPlayerBullet = True\<rparr>]\<rparr>"

text \<open>
  The same game with two enemy bullets right above the player as well.
\<close>

definition crossfire :: game where
  "crossfire =
     startedGame
       \<lparr>invaders := [\<lparr>x = 12, y = 30, type = 2, alive = True\<rparr>],
        barriers := [\<lparr>x = 12, y = 30, health = 3\<rparr>],
        bullets := [\<lparr>x = 12, y = 31, isPlayerBullet = True\<rparr>,
                    \<lparr>x = 30, y = 36, isPlayerBullet = False\<rparr>,
                    \<lparr>x = 31, y = 36, isPlayerBullet = False\<rparr>]\<rparr>"

section \<open>Frame conditions\<close>

text \<open>Each method leaves the fields it does not assign as they are.\<close>

lemma play_keeps [simp]:
  "player (play e s) = player s"
  "invaders (play e s) = invaders s"
  "bullets (play e s) = bullets s"
  "barriers (play e s) = barriers s"
  "score (play e s) = score s"
  "lives (play e s) = lives s"
  "gameOver (play e s) = gameOver s"
  "paused (play e s) = paused s"
  "started (play e s) = started s"
  "level (play e s) = level s"
  "highScore (play e s) = highScore s"
  "invaderMoveTimer (play e s) = invaderMoveTimer s"
  "invaderMoveInterval (play e s) = invaderMoveInterval s"
  "invaderDirection (play e s) = invaderDirection s"
  "invaderDropDistance (play e s) = invaderDropDistance s"
  "shootCooldown (play e s) = shootCooldown s"
  "shootInterval (play e s) = shootInterval s"
  "enemyShootTimer (play e s) = enemyShootTimer s"
  "enemyShootInterval (play e s) = enemyShootInterval s"
  by (simp_all add: play_def)

lemma startGame_keeps [simp]:
  "player (startGame s) = player s"
  "invaders (startGame s) = invaders s"
  "bullets (startGame s) = bullets s"
  "barriers (startGame s) = barriers s"
  "score (startGame s) = score s"
  "lives (startGame s) = lives s"
  "gameOver (startGame s) = gameOver s"
  "paused (startGame s) = paused s"
  "level (startGame s) = level s"
  "highScore (startGame s) = highScore s"
  "invaderMoveTimer (startGame s) = invaderMoveTimer s"
  "invaderMoveInterval (startGame s) = invaderMoveInterval s"
  "invaderDirection (startGame s) = invaderDirection s"
  "invaderDropDistance (startGame s) = invaderDropDistance s"
  "shootCooldown (startGame s) = shootCooldown s"
  "shootInterval (startGame s) = shootInterval s"
  "enemyShootTimer (startGame s) = enemyShootTimer s"
  "enemyShootInterval (startGame s) = enemyShootInterval s"
  "played (startGame s) = played s"
  by (simp_all add: startGame_def)

lemma togglePause_keeps [simp]:
  "player (togglePause s) = player s"
  "invaders (togglePause s) = invaders s"
  "bullets (togglePause s) = bullets s"
  "barriers (togglePause s) = barriers s"
  "score (togglePause s) = score s"
  "lives (togglePause s) = lives s"
  "gameOver (togglePause s) = gameOver s"
  "started (togglePause s) = started s"
  "level (togglePause s) = level s"
  "highScore (togglePause s) = highScore s"
  "invaderMoveTimer (togglePause s) = invaderMoveTimer s"
  "invaderMoveInterval (togglePause s) = invaderMoveInterval s"
  "invaderDirection (togglePause s) = invaderDirection s"
  "invaderDropDistance (togglePause s) = invaderDropDistance s"
  "shootCooldown (togglePause s) = shootCooldown s"
  "shootInterval (togglePause s) = shootInterval s"
  "enemyShootTimer (togglePause s) = enemyShootTimer s"
  "enemyShootInterval (togglePause s) = enemyShootInterval s"
  "played (togglePause s) = played s"
  by (simp_all add: togglePause_def)

lemma moveLeft_keeps [simp]:
  "invaders (moveLeft s) = invaders s"
  "bullets (moveLeft s) = bullets s"
  "barriers (moveLeft s) = barriers s"
  "score (moveLeft s) = score s"
  "lives (moveLeft s) = lives s"
  "gameOver (moveLeft s) = gameOver s"
  "paused (moveLeft s) = paused s"
  "started (moveLeft s) = started s"
  "level (moveLeft s) = level s"
  "highScore (moveLeft s) = highScore s"
  "invaderMoveTimer (moveLeft s) = invaderMoveTimer s"
  "invaderMoveInterval (moveLeft s) = invaderMoveInterval s"
  "invaderDirection (moveLeft s) = invaderDirection s"
  "invaderDropDistance (moveLeft s) = invaderDropDistance s"
  "shootCooldown (moveLeft s) = shootCooldown s"
  "shootInterval (moveLeft s) = shootInterval s"
  "enemyShootTimer (moveLeft s) = enemyShootTimer s"
  "enemyShootInterval (moveLeft s) = enemyShootInterval s"
  "played (moveLeft s) = played s"
  by (simp_all add: moveLeft_def)

lemma moveRight_keeps [simp]:
  "invaders (moveRight s) = invaders s"
  "bullets (moveRight s) = bullets s"
  "barriers (moveRight s) = barriers s"
  "score (moveRight s) = score s"
  "lives (moveRight s) = lives s"
  "gameOver (moveRight s) = gameOver s"
  "paused (moveRight s) = paused s"
  "started (moveRight s) = started s"
  "level (moveRight s) = level s"
  "highScore (moveRight s) = highScore s"
  "invaderMoveTimer (moveRight s) = invaderMoveTimer s"
  "invaderMoveInterval (moveRight s) = invaderMoveInterval s"
  "invaderDirection (moveRight s) = invaderDirection s"
  "invaderDropDistance (moveRight s) = invaderDropDistance s"
  "shootCooldown (moveRight s) = shootCooldown s"
  "shootInterval (moveRight s) = shootInterval s"
  "enemyShootTimer (moveRight s) = enemyShootTimer s"
  "enemyShootInterval (moveRight s) = enemyShootInterval s"
  "played (moveRight s) = played s"
  by (simp_all add: moveRight_def)

lemma shootBullet_keeps [simp]:
  "player (shootBullet s) = player s"
  "invaders (shootBullet s) = invaders s"
  "barriers (shootBullet s) = barriers s"
  "score (shootBullet s) = score s"
  "lives (shootBullet s) = lives s"
  "gameOver (shootBullet s) = gameOver s"
  "paused (shootBullet s) = paused s"
  "started (shootBullet s) = started s"
  "level (shootBullet s) = level s"
  "highScore (shootBullet s) = highScore s"
  "invaderMoveTimer (shootBullet s) = invaderMoveTimer s"
  "invaderMoveInterval (shootBullet s) = invaderMoveInterval s"
  "invaderDirection (shootBullet s) = invaderDirection s"
  "invaderDropDistance (shootBullet s) = invaderDropDistance s"
  "shootInterval (shootBullet s) = shootInterval s"
  "enemyShootTimer (shootBullet s) = enemyShootTimer s"
  "enemyShootInterval (shootBullet s) = enemyShootInterval s"
  by (simp_all add: shootBullet_def)

lemma spawnInvaders_keeps [simp]:
  "player (spawnInvaders s) = player s"
  "bullets (spawnInvaders s) = bullets s"
  "barriers (spawnInvaders s) = barriers s"
  "score (spawnInvaders s) = score s"
  "lives (spawnInvaders s) = lives s"
  "gameOver (spawnInvaders s) = gameOver s"
  "paused (spawnInvaders s) = paused s"
  "started (spawnInvaders s) = started s"
  "level (spawnInvaders s) = level s"
  "highScore (spawnInvaders s) = highScore s"
  "invaderMoveTimer (spawnInvaders s) = invaderMoveTimer s"
  "invaderDropDistance (spawnInvaders s) = invaderDropDistance s"
  "shootCooldown (spawnInvaders s) = shootCooldown s"
  "shootInterval (spawnInvaders s) = shootInterval s"
  "enemyShootTimer (spawnInvaders s) = enemyShootTimer s"
  "enemyShootInterval (spawnInvaders s) = enemyShootInterval s"
  "played (spawnInvaders s) = played s"
  by (simp_all add: spawnInvaders_def)

lemma spawnBarriers_keeps [simp]:
  "player (spawnBarriers s) = player s"
  "invaders (spawnBarriers s) = invaders s"
  "bullets (spawnBarriers s) = bullets s"
  "score (spawnBarriers s) = score s"
  "lives (spawnBarriers s) = lives s"
  "gameOver (spawnBarriers s) = gameOver s"
  "paused (spawnBarriers s) = paused s"
  "started (spawnBarriers s) = started s"
  "level (spawnBarriers s) = level s"
  "highScore (spawnBarriers s) = highScore s"
  "invaderMoveTimer (spawnBarriers s) = invaderMoveTimer s"
  "invaderMoveInterval (spawnBarriers s) = invaderMoveInterval s"
  "invaderDirection (spawnBarriers s) = invaderDirection s"
  "invaderDropDistance (spawnBarriers s) = invaderDropDistance s"
  "shootCooldown (spawnBarriers s) = shootCooldown s"
  "shootInterval (spawnBarriers s) = shootInterval s"
  "enemyShootTimer (spawnBarriers s) = enemyShootTimer s"
  "enemyShootInterval (spawnBarriers s) = enemyShootInterval s"
  "played (spawnBarriers s) = played s"
  by (simp_all add: spawnBarriers_def)

lemma initGame_keeps [simp]:
  "highScore (initGame s) = highScore s"
  "invaderMoveTimer (initGame s) = invaderMoveTimer s"
  "invaderDropDistance (initGame s) = invaderDropDistance s"
  "shootCooldown (initGame s) = shootCooldown s"
  "shootInterval (initGame s) = shootInterval s"
  "enemyShootTimer (initGame s) = enemyShootTimer s"
  "enemyShootInterval (initGame s) = enemyShootInterval s"
  "played (initGame s) = played s"
  by (simp_all add: initGame_def)

lemma enemyShoot_keeps [simp]:
  "player (enemyShoot rnd s) = player s"
  "invaders (enemyShoot rnd s) = invaders s"
  "barriers (enemyShoot rnd s) = barriers s"
  "score (enemyShoot rnd s) = score s"
  "lives (enemyShoot rnd s) = lives s"
  "gameOver (enemyShoot rnd s) = gameOver s"
  "paused (enemyShoot rnd s) = paused s"
  "started (enemyShoot rnd s) = started s"
  "level (enemyShoot rnd s) = level s"
  "highScore (enemyShoot rnd s) = highScore s"
  "invaderMoveTimer (enemyShoot rnd s) = invaderMoveTimer s"
  "invaderMoveInterval (enemyShoot rnd s) = invaderMoveInterval s"
  "invaderDirection (enemyShoot rnd s) = invaderDirection s"
  "invaderDropDistance (enemyShoot rnd s) = invaderDropDistance s"
  "shootCooldown (enemyShoot rnd s) = shootCooldown s"
  "shootInterval (enemyShoot rnd s) = shootInterval s"
  "enemyShootTimer (enemyShoot rnd s) = enemyShootTimer s"
  "enemyShootInterval (enemyShoot rnd s) = enemyShootInterval s"
  by (simp_all add: enemyShoot_def Let_def)

lemma reachedPlayer_keeps [simp]:
  "player (reachedPlayer v s) = player s"
  "invaders (reachedPlayer v s) = invaders s"
  "bullets (reachedPlayer v s) = bullets s"
  "barriers (reachedPlayer v s) = barriers s"
  "score (reachedPlayer v s) = score s"
  "paused (reachedPlayer v s) = paused s"
  "started (reachedPlayer v s) = started s"
  "level (reachedPlayer v s) = level s"
  "highScore (reachedPlayer v s) = highScore s"
  "invaderMoveTimer (reachedPlayer v s) = invaderMoveTimer s"
  "invaderMoveInterval (reachedPlayer v s) = invaderMoveInterval s"
  "invaderDirection (reachedPlayer v s) = invaderDirection s"
  "invaderDropDistance (reachedPlayer v s) = invaderDropDistance s"
  "shootCooldown (reachedPlayer v s) = shootCooldown s"
  "shootInterval (reachedPlayer v s) = shootInterval s"
  "enemyShootTimer (reachedPlayer v s) = enemyShootTimer s"
  "enemyShootInterval (reachedPlayer v s) = enemyShootInterval s"
  by (simp_all add: reachedPlayer_def)

lemma fold_reachedPlayer_keeps [simp]:
  "player (fold reachedPlayer vs s) = player s"
  "invaders (fold reachedPlayer vs s) = invaders s"
  "bullets (fold reachedPlayer vs s) = bullets s"
  "barriers (fold reachedPlayer vs s) = barriers s"
  "score (fold reachedPlayer vs s) = score s"
  "paused (fold reachedPlayer vs s) = paused s"
  "started (fold reachedPlayer vs s) = started s"
  "level (fold reachedPlayer vs s) = level s"
  "highScore (fold reachedPlayer vs s) = highScore s"
  "invaderMoveTimer (fold reachedPlayer vs s) = invaderMoveTimer s"
  "invaderMoveInterval (fold reachedPlayer vs s) = invaderMoveInterval s"
  "invaderDirection (fold reachedPlayer vs s) = invaderDirection s"
  "invaderDropDistance (fold reachedPlayer vs s) = invaderDropDistance s"
  "shootCooldown (fold reachedPlayer vs s) = shootCooldown s"
  "shootInterval (fold reachedPlayer vs s) = shootInterval s"
  "enemyShootTimer (fold reachedPlayer vs s) = enemyShootTimer s"
  "enemyShootInterval (fold reachedPlayer vs s) = enemyShootInterval s"
  by (induct vs arbitrary: s) simp_all

lemma formationStep_keeps [simp]:
  "player (formationStep s) = player s"
  "bullets (formationStep s) = bullets s"
  "barriers (formationStep s) = barriers s"
  "score (formationStep s) = score s"
  "paused (formationStep s) = paused s"
  "started (formationStep s) = started s"
  "level (formationStep s) = level s"
  "highScore (formationStep s) = highScore s"
  "invaderMoveTimer (formationStep s) = invaderMoveTimer s"
  "invaderMoveInterval (formationStep s) = invaderMoveInterval s"
  "invaderDropDistance (formationStep s) = invaderDropDistance s"
  "shootCooldown (formationStep s) = shootCooldown s"
  "shootInterval (formationStep s) = shootInterval s"
  "enemyShootTimer (formationStep s) = enemyShootTimer s"
  "enemyShootInterval (formationStep s) = enemyShootInterval s"
  by (simp_all add: formationStep_def Let_def)

lemma moveInvaders_keeps [simp]:
  "player (moveInvaders dt s) = player s"
  "bullets (moveInvaders dt s) = bullets s"
  "barriers (moveInvaders dt s) = barriers s"
  "score (moveInvaders dt s) = score s"
  "paused (moveInvaders dt s) = paused s"
  "started (moveInvaders dt s) = started s"
  "level (moveInvaders dt s) = level s"
  "highScore (moveInvaders dt s) = highScore s"
  "invaderMoveInterval (moveInvaders dt s) = invaderMoveInterval s"
  "invaderDropDistance (moveInvaders dt s) = invaderDropDistance s"
  "shootCooldown (moveInvaders dt s) = shootCooldown s"
  "shootInterval (moveInvaders dt s) = shootInterval s"
  "enemyShootTimer (moveInvaders dt s) = enemyShootTimer s"
  "enemyShootInterval (moveInvaders dt s) = enemyShootInterval s"
  by (simp_all add: moveInvaders_def Let_def)

lemma pruneBullets_keeps [simp]:
  "player (pruneBullets s) = player s"
  "invaders (pruneBullets s) = invaders s"
  "barriers (pruneBullets s) = barriers s"
  "score (pruneBullets s) = score s"
  "lives (pruneBullets s) = lives s"
  "gameOver (pruneBullets s) = gameOver s"
  "paused (pruneBullets s) = paused s"
  "started (pruneBullets s) = started s"
  "level (pruneBullets s) = level s"
  "highScore (pruneBullets s) = highScore s"
  "invaderMoveTimer (pruneBullets s) = invaderMoveTimer s"
  "invaderMoveInterval (pruneBullets s) = invaderMoveInterval s"
  "invaderDirection (pruneBullets s) = invaderDirection s"
  "invaderDropDistance (pruneBullets s) = invaderDropDistance s"
  "shootCooldown (pruneBullets s) = shootCooldown s"
  "shootInterval (pruneBullets s) = shootInterval s"
  "enemyShootTimer (pruneBullets s) = enemyShootTimer s"
  "enemyShootInterval (pruneBullets s) = enemyShootInterval s"
  "played (pruneBullets s) = played s"
  by (simp_all add: pruneBullets_def)

lemma bulletVsInvaders_keeps [simp]:
  "player (bulletVsInvaders i s) = player s"
  "barriers (bulletVsInvaders i s) = barriers s"
  "lives (bulletVsInvaders i s) = lives s"
  "gameOver (bulletVsInvaders i s) = gameOver s"
  "paused (bulletVsInvaders i s) = paused s"
  "started (bulletVsInvaders i s) = started s"
  "level (bulletVsInvaders i s) = level s"
  "highScore (bulletVsInvaders i s) = highScore s"
  "invaderMoveTimer (bulletVsInvaders i s) = invaderMoveTimer s"
  "invaderMoveInterval (bulletVsInvaders i s) = invaderMoveInterval s"
  "invaderDirection (bulletVsInvaders i s) = invaderDirection s"
  "invaderDropDistance (bulletVsInvaders i s) = invaderDropDistance s"
  "shootCooldown (bulletVsInvaders i s) = shootCooldown s"
  "shootInterval (bulletVsInvaders i s) = shootInterval s"
  "enemyShootTimer (bulletVsInvaders i s) = enemyShootTimer s"
  "enemyShootInterval (bulletVsInvaders i s) = enemyShootInterval s"
  by (simp_all add: bulletVsInvaders_def Let_def split: option.splits)

lemma invaderCollisions_keeps [simp]:
  "player (invaderCollisions n s) = player s"
  "barriers (invaderCollisions n s) = barriers s"
  "lives (invaderCollisions n s) = lives s"
  "gameOver (invaderCollisions n s) = gameOver s"
  "paused (invaderCollisions n s) = paused s"
  "started (invaderCollisions n s) = started s"
  "level (invaderCollisions n s) = level s"
  "highScore (invaderCollisions n s) = highScore s"
  "invaderMoveTimer (invaderCollisions n s) = invaderMoveTimer s"
  "invaderMoveInterval (invaderCollisions n s) = invaderMoveInterval s"
  "invaderDirection (invaderCollisions n s) = invaderDirection s"
  "invaderDropDistance (invaderCollisions n s) = invaderDropDistance s"
  "shootCooldown (invaderCollisions n s) = shootCooldown s"
  "shootInterval (invaderCollisions n s) = shootInterval s"
  "enemyShootTimer (invaderCollisions n s) = enemyShootTimer s"
  "enemyShootInterval (invaderCollisions n s) = enemyShootInterval s"
  by (induct n arbitrary: s) simp_all

lemma bulletVsBarriers_keeps [simp]:
  "player (bulletVsBarriers i s) = player s"
  "invaders (bulletVsBarriers i s) = invaders s"
  "score (bulletVsBarriers i s) = score s"
  "lives (bulletVsBarriers i s) = lives s"
  "gameOver (bulletVsBarriers i s) = gameOver s"
  "paused (bulletVsBarriers i s) = paused s"
  "started (bulletVsBarriers i s) = started s"
  "level (bulletVsBarriers i s) = level s"
  "highScore (bulletVsBarriers i s) = highScore s"
  "invaderMoveTimer (bulletVsBarriers i s) = invaderMoveTimer s"
  "invaderMoveInterval (bulletVsBarriers i s) = invaderMoveInterval s"
  "invaderDirection (bulletVsBarriers i s) = invaderDirection s"
  "invaderDropDistance (bulletVsBarriers i s) = invaderDropDistance s"
  "shootCooldown (bulletVsBarriers i s) = shootCooldown s"
  "shootInterval (bulletVsBarriers i s) = shootInterval s"
  "enemyShootTimer (bulletVsBarriers i s) = enemyShootTimer s"
  "enemyShootInterval (bulletVsBarriers i s) = enemyShootInterval s"
  by (simp_all add: bulletVsBarriers_def Let_def split: option.splits)

lemma barrierCollisions_keeps [simp]:
  "player (barrierCollisions n s) = player s"
  "invaders (barrierCollisions n s) = invaders s"
  "score (barrierCollisions n s) = score s"
  "lives (barrierCollisions n s) = lives s"
  "gameOver (barrierCollisions n s) = gameOver s"
  "paused (barrierCollisions n s) = paused s"
  "started (barrierCollisions n s) = started s"
  "level (barrierCollisions n s) = level s"
  "highScore (barrierCollisions n s) = highScore s"
  "invaderMoveTimer (barrierCollisions n s) = invaderMoveTimer s"
  "invaderMoveInterval (barrierCollisions n s) = invaderMoveInterval s"
  "invaderDirection (barrierCollisions n s) = invaderDirection s"
  "invaderDropDistance (barrierCollisions n s) = invaderDropDistance s"
  "shootCooldown (barrierCollisions n s) = shootCooldown s"
  "shootInterval (barrierCollisions n s) = shootInterval s"
  "enemyShootTimer (barrierCollisions n s) = enemyShootTimer s"
  "enemyShootInterval (barrierCollisions n s) = enemyShootInterval s"
  by (induct n arbitrary: s) simp_all

lemma bulletVsPlayer_keeps [simp]:
  "player (bulletVsPlayer i s) = player s"
  "invaders (bulletVsPlayer i s) = invaders s"
  "barriers (bulletVsPlayer i s) = barriers s"
  "score (bulletVsPlayer i s) = score s"
  "paused (bulletVsPlayer i s) = paused s"
  "started (bulletVsPlayer i s) = started s"
  "level (bulletVsPlayer i s) = level s"
  "highScore (bulletVsPlayer i s) = highScore s"
  "invaderMoveTimer (bulletVsPlayer i s) = invaderMoveTimer s"
  "invaderMoveInterval (bulletVsPlayer i s) = invaderMoveInterval s"
  "invaderDirection (bulletVsPlayer i s) = invaderDirection s"
  "invaderDropDistance (bulletVsPlayer i s) = invaderDropDistance s"
  "shootCooldown (bulletVsPlayer i s) = shootCooldown s"
  "shootInterval (bulletVsPlayer i s) = shootInterval s"
  "enemyShootTimer (bulletVsPlayer i s) = enemyShootTimer s"
  "enemyShootInterval (bulletVsPlayer i s) = enemyShootInterval s"
  by (simp_all add: bulletVsPlayer_def Let_def)

lemma playerCollisions_keeps [simp]:
  "player (playerCollisions n s) = player s"
  "invaders (playerCollisions n s) = invaders s"
  "barriers (playerCollisions n s) = barriers s"
  "score (playerCollisions n s) = score s"
  "paused (playerCollisions n s) = paused s"
  "started (playerCollisions n s) = started s"
  "level (playerCollisions n s) = level s"
  "highScore (playerCollisions n s) = highScore s"
  "invaderMoveTimer (playerCollisions n s) = invaderMoveTimer s"
  "invaderMoveInterval (playerCollisions n s) = invaderMoveInterval s"
  "invaderDirection (playerCollisions n s) = invaderDirection s"
  "invaderDropDistance (playerCollisions n s) = invaderDropDistance s"
  "shootCooldown (playerCollisions n s) = shootCooldown s"
  "shootInterval (playerCollisions n s) = shootInterval s"
  "enemyShootTimer (playerCollisions n s) = enemyShootTimer s"
  "enemyShootInterval (playerCollisions n s) = enemyShootInterval s"
  by (induct n arbitrary: s) simp_all

lemma resolveCollisions_keeps [simp]:
  "player (resolveCollisions s) = player s"
  "paused (resolveCollisions s) = paused s"
  "started (resolveCollisions s) = started s"
  "level (resolveCollisions s) = level s"
  "highScore (resolveCollisions s) = highScore s"
  "invaderMoveTimer (resolveCollisions s) = invaderMoveTimer s"
  "invaderMoveInterval (resolveCollisions s) = invaderMoveInterval s"
  "invaderDirection (resolveCollisions s) = invaderDirection s"
  "invaderDropDistance (resolveCollisions s) = invaderDropDistance s"
  "shootCooldown (resolveCollisions s) = shootCooldown s"
  "shootInterval (resolveCollisions s) = shootInterval s"
  "enemyShootTimer (resolveCollisions s) = enemyShootTimer s"
  "enemyShootInterval (resolveCollisions s) = enemyShootInterval s"
  by (simp_all add: resolveCollisions_def Let_def)

lemma updateBullets_keeps [simp]:
  "player (updateBullets s) = player s"
  "paused (updateBullets s) = paused s"
  "started (updateBullets s) = started s"
  "level (updateBullets s) = level s"
  "highScore (updateBullets s) = highScore s"
  "invaderMoveTimer (updateBullets s) = invaderMoveTimer s"
  "invaderMoveInterval (updateBullets s) = invaderMoveInterval s"
  "invaderDirection (updateBullets s) = invaderDirection s"
  "invaderDropDistance (updateBullets s) = invaderDropDistance s"
  "shootCooldown (updateBullets s) = shootCooldown s"
  "shootInterval (updateBullets s) = shootInterval s"
  "enemyShootTimer (updateBullets s) = enemyShootTimer s"
  "enemyShootInterval (updateBullets s) = enemyShootInterval s"
  by (simp_all add: updateBullets_def)

lemma checkLevelComplete_keeps [simp]:
  "player (checkLevelComplete s) = player s"
  "score (checkLevelComplete s) = score s"
  "lives (checkLevelComplete s) = lives s"
  "gameOver (checkLevelComplete s) = gameOver s"
  "paused (checkLevelComplete s) = paused s"
  "started (checkLevelComplete s) = started s"
  "highScore (checkLevelComplete s) = highScore s"
  "invaderMoveTimer (checkLevelComplete s) = invaderMoveTimer s"
  "invaderDropDistance (checkLevelComplete s) = invaderDropDistance s"
  "shootCooldown (checkLevelComplete s) = shootCooldown s"
  "shootInterval (checkLevelComplete s) = shootInterval s"
  "enemyShootTimer (checkLevelComplete s) = enemyShootTimer s"
  "enemyShootInterval (checkLevelComplete s) = enemyShootInterval s"
  by (simp_all add: checkLevelComplete_def)

lemma advance_keeps [simp]:
  "player (advance inp s) = player s"
  "paused (advance inp s) = paused s"
  "started (advance inp s) = started s"
  "level (advance inp s) = level s"
  "highScore (advance inp s) = highScore s"
  "invaderMoveInterval (advance inp s) = invaderMoveInterval s"
  "invaderDropDistance (advance inp s) = invaderDropDistance s"
  "shootInterval (advance inp s) = shootInterval s"
  "enemyShootInterval (advance inp s) = enemyShootInterval s"
  by (simp_all add: advance_def Let_def)

lemma simulate_keeps [simp]:
  "player (simulate inp s) = player s"
  "paused (simulate inp s) = paused s"
  "started (simulate inp s) = started s"
  "invaderDropDistance (simulate inp s) = invaderDropDistance s"
  "shootInterval (simulate inp s) = shootInterval s"
  "enemyShootInterval (simulate inp s) = enemyShootInterval s"
  by (simp_all add: simulate_def Let_def)

lemma shoot_keeps [simp]:
  "player (shoot s) = player s" "invaders (shoot s) = invaders s"
  "barriers (shoot s) = barriers s" "score (shoot s) = score s" "lives (shoot s) = lives s"
  "gameOver (shoot s) = gameOver s" "paused (shoot s) = paused s" "level (shoot s) = level s"
  "highScore (shoot s) = highScore s" "invaderMoveTimer (shoot s) = invaderMoveTimer s"
  "invaderMoveInterval (shoot s) = invaderMoveInterval s"
  "invaderDirection (shoot s) = invaderDirection s"
  "invaderDropDistance (shoot s) = invaderDropDistance s"
  "shootInterval (shoot s) = shootInterval s"
  "enemyShootTimer (shoot s) = enemyShootTimer s"
  "enemyShootInterval (shoot s) = enemyShootInterval s"
  by (simp_all add: shoot_def)

section \<open>The initial state\<close>

lemma newGame_fields [simp]:
  "player newGame = \<lparr>x = 30, y = 37\<rparr>" "score newGame = 0" "lives newGame = 3"
  "\<not> gameOver newGame" "\<not> paused newGame" "\<not> started newGame" "level newGame = 1"
  "highScore newGame = 0" "bullets newGame = []" "invaders newGame = freshInvaders"
  "barriers newGame = freshBarriers" "invaderMoveTimer newGame = 0"
  "invaderMoveInterval newGame = 700" "invaderDirection newGame = 1"
  "invaderDropDistance newGame = 2" "shootCooldown newGame = 0" "shootInterval newGame = 300"
  "enemyShootTimer newGame = 0" "enemyShootInterval newGame = 1500" "played newGame = []"
  by (simp_all add: newGame_def initGame_def spawnBarriers_def spawnInvaders_def
        fieldDefaults_def GRID_WIDTH_def GRID_HEIGHT_def)

lemma startedGame_facts:
  "started startedGame" "\<not> gameOver startedGame" "\<not> paused startedGame"
  "shootCooldown startedGame = 0" "played startedGame = []" "bullets startedGame = []"
  "player startedGame = \<lparr>x = 30, y = 37\<rparr>" "shootInterval startedGame = 300"
  by (simp_all add: startedGame_def shoot_def startGame_def)

lemma pausedGame_phase: "started pausedGame" "\<not> gameOver pausedGame" "paused pausedGame"
  by (simp_all add: pausedGame_def shoot_def startGame_def togglePause_def)

lemma pausedGame_player: "player pausedGame = \<lparr>x = 30, y = 37\<rparr>"
  by (simp add: pausedGame_def shoot_def startGame_def togglePause_def)

section \<open>Reachable states and the fields that are never assigned\<close>

lemma restart_constants [simp]:
  "invaderDropDistance (restart s) = invaderDropDistance s"
  "shootInterval (restart s) = shootInterval s"
  "enemyShootInterval (restart s) = enemyShootInterval s"
  by (simp_all add: restart_def)

lemma handleGamepadInput_constants [simp]:
  "invaderDropDistance (handleGamepadInput inp s) = invaderDropDistance s"
  "shootInterval (handleGamepadInput inp s) = shootInterval s"
  "enemyShootInterval (handleGamepadInput inp s) = enemyShootInterval s"
  by (simp_all add: handleGamepadInput_def Let_def)

lemma handleKeyboardMovement_constants [simp]:
  "invaderDropDistance (handleKeyboardMovement inp s) = invaderDropDistance s"
  "shootInterval (handleKeyboardMovement inp s) = shootInterval s"
  "enemyShootInterval (handleKeyboardMovement inp s) = enemyShootInterval s"
  by (simp_all add: handleKeyboardMovement_def Let_def)

lemma update_constants [simp]:
  "invaderDropDistance (update inp s) = invaderDropDistance s"
  "shootInterval (update inp s) = shootInterval s"
  "enemyShootInterval (update inp s) = enemyShootInterval s"
  by (simp_all add: update_def Let_def)

lemma step_constants [simp]:
  "invaderDropDistance (step e s) = invaderDropDistance s"
  "shootInterval (step e s) = shootInterval s"
  "enemyShootInterval (step e s) = enemyShootInterval s"
  by (cases e; simp)+


lemma reachable_run: "reachable s \<Longrightarrow> reachable (run evs s)"
  by (induction evs arbitrary: s) (simp_all add: reachable_step)

lemma reachable_run_newGame: "reachable (run evs newGame)"
  by (rule reachable_run) (rule reachable_init)


section \<open>Cues sent to the synthesiser\<close>

lemma cues_play [simp]: "cues c (play e s) = cues c s + (if e = c then 1 else 0)"
  by (simp add: cues_def play_def)

lemma cues_cong: "played t = played s \<Longrightarrow> cues c t = cues c s"
  by (simp add: cues_def)

lemma cues_upd [simp]:
  "cues c (s\<lparr>player := a1\<rparr>) = cues c s"
  "cues c (s\<lparr>invaders := a2\<rparr>) = cues c s"
  "cues c (s\<lparr>bullets := a3\<rparr>) = cues c s"
  "cues c (s\<lparr>barriers := a4\<rparr>) = cues c s"
  "cues c (s\<lparr>score := a5\<rparr>) = cues c s"
  "cues c (s\<lparr>lives := a6\<rparr>) = cues c s"
  "cues c (s\<lparr>gameOver := a7\<rparr>) = cues c s"
  "cues c (s\<lparr>paused := a8\<rparr>) = cues c s"
  "cues c (s\<lparr>started := a9\<rparr>) = cues c s"
  "cues c (s\<lparr>level := b1\<rparr>) = cues c s"
  "cues c (s\<lparr>highScore := b2\<rparr>) = cues c s"
  "cues c (s\<lparr>invaderMoveTimer := b3\<rparr>) = cues c s"
  "cues c (s\<lparr>invaderMoveInterval := b4\<rparr>) = cues c s"
  "cues c (s\<lparr>invaderDirection := b5\<rparr>) = cues c s"
  "cues c (s\<lparr>shootCooldown := b6\<rparr>) = cues c s"
  "cues c (s\<lparr>enemyShootTimer := b7\<rparr>) = cues c s"
  by (simp_all add: cues_def)

lemma cues_simple [simp]:
  "cues c (startGame s) = cues c s" "cues c (togglePause s) = cues c s"
  "cues c (moveLeft s) = cues c s" "cues c (moveRight s) = cues c s"
  "cues c (initGame s) = cues c s" "cues c (restart s) = cues c s"
  "cues c (spawnInvaders s) = cues c s" "cues c (spawnBarriers s) = cues c s"
  "cues c (pruneBullets s) = cues c s"
  by (simp_all add: cues_def restart_def)





lemma cues_invaderCollisions:
  "c \<noteq> Explosion \<Longrightarrow> cues c (invaderCollisions n s) = cues c s"
  by (induct n arbitrary: s) (simp_all add: bulletVsInvaders_def Let_def split: option.splits)

lemma cues_barrierCollisions:
  "c \<noteq> BarrierHit \<Longrightarrow> cues c (barrierCollisions n s) = cues c s"
  by (induct n arbitrary: s) (simp_all add: bulletVsBarriers_def Let_def split: option.splits)

lemma cues_playerCollisions:
  "c \<noteq> PlayerHit \<Longrightarrow> c \<noteq> GameOverSound \<Longrightarrow> cues c (playerCollisions n s) = cues c s"
  by (induct n arbitrary: s) (simp_all add: bulletVsPlayer_def Let_def)





section \<open>Indices read by the loops\<close>

lemma shooter_index_in_range:
  assumes "0 < n"
  shows "nat \<lfloor>frac r * real n\<rfloor> < n"
proof -
  have "frac r * real n < real n"
    using assms frac_lt_1[of r] by simp
  moreover have "0 \<le> frac r * real n"
    using frac_ge_0[of r] by simp
  ultimately show ?thesis
    by (simp add: floor_less_iff nat_less_iff)
qed

lemma lastHit_Some: "lastHit b bars n = Some j \<Longrightarrow> j < n"
  by (induction n) (auto split: if_splits)

lemma firstHit_Some: "firstHit b vs = Some k \<Longrightarrow> k < length vs \<and> hitsInvader b (vs ! k)"
  by (induction vs arbitrary: k) (auto split: if_splits)

lemma firstHit_None: "firstHit b vs = None \<Longrightarrow> \<forall>v\<in>set vs. \<not> hitsInvader b v"
  by (induction vs) (auto split: if_splits)

section \<open>C1: the player stays on the grid\<close>

lemma playerInRange_cong: "player t = player s \<Longrightarrow> playerInRange t = playerInRange s"
  by (simp add: playerInRange_def)

lemma playerInRange_moveLeft: "playerInRange s \<Longrightarrow> playerInRange (moveLeft s)"
  by (auto simp add: playerInRange_def moveLeft_def)

lemma playerInRange_moveRight: "playerInRange s \<Longrightarrow> playerInRange (moveRight s)"
  by (auto simp add: playerInRange_def moveRight_def GRID_WIDTH_def)

lemma playerInRange_initGame: "playerInRange (initGame s)"
  by (simp add: playerInRange_def initGame_def GRID_WIDTH_def)

lemma playerInRange_restart: "playerInRange s \<Longrightarrow> playerInRange (restart s)"
  by (simp add: restart_def playerInRange_initGame)

lemma playerInRange_gamepad: "playerInRange s \<Longrightarrow> playerInRange (handleGamepadInput inp s)"
  by (simp add: handleGamepadInput_def Let_def playerInRange_restart playerInRange_moveLeft
      playerInRange_moveRight playerInRange_cong[of "startGame _"] playerInRange_cong[of "shoot _"]
      playerInRange_cong[of "togglePause _"])

lemma playerInRange_keyboard: "playerInRange s \<Longrightarrow> playerInRange (handleKeyboardMovement inp s)"
  by (simp add: handleKeyboardMovement_def Let_def playerInRange_moveLeft
      playerInRange_moveRight playerInRange_cong[of "startGame _"])

lemma playerInRange_update: "playerInRange s \<Longrightarrow> playerInRange (update inp s)"
  by (simp add: update_def Let_def playerInRange_keyboard playerInRange_gamepad
      playerInRange_cong[of "simulate _ _"])

lemma playerInRange_step: "playerInRange s \<Longrightarrow> playerInRange (step e s)"
  by (cases e)
    (simp_all add: playerInRange_update playerInRange_restart
      playerInRange_cong[of "shoot _"] playerInRange_cong[of "togglePause _"])

lemma playerInRange_run: "playerInRange s \<Longrightarrow> playerInRange (run evs s)"
  by (induction evs arbitrary: s) (simp_all add: playerInRange_step)

lemma playerInRange_newGame: "playerInRange newGame"
  by (simp add: newGame_def playerInRange_initGame)

text \<open>
  C1 (amended). For every sequence of frames and key events from the initial state, with
  keyboard and gamepad movement of any magnitude and repetition, the player's x coordinate
  stays within \<open>[0, W - 2] = [0, 58]\<close>.
\<close>

theorem player_x_stays_on_grid:
  "0 \<le> x (player (run evs newGame)) \<and> x (player (run evs newGame)) \<le> GRID_WIDTH - 2"
  using playerInRange_run[OF playerInRange_newGame, of evs] by (simp add: playerInRange_def)

lemma leftwards_x: "x (player (run leftwards newGame)) = 0"
  unfolding leftwards_def by code_simp

text \<open>C1, witness: fifteen frames with the left key held take the player to column 0.\<close>

theorem player_x_stays_on_grid_witness:
  "x (player (run leftwards newGame)) = 0
   \<and> 0 \<le> x (player (run leftwards newGame))
   \<and> x (player (run leftwards newGame)) \<le> GRID_WIDTH - 2"
  using player_x_stays_on_grid[of leftwards] leftwards_x by simp

text \<open>C1 as stated fails: after those fifteen frames the player's x is below 1.\<close>

theorem player_x_below_one_counterexample:
  "\<not> (1 \<le> x (player (run leftwards newGame))
       \<and> x (player (run leftwards newGame)) \<le> GRID_WIDTH - 2)"
  by (simp add: leftwards_x)

section \<open>C2: a frame while paused\<close>

lemma togglePause_twice: "togglePause (togglePause s) = s"
  by (simp add: togglePause_def)


lemma moveLeft_eq:
  "moveLeft s = s\<lparr>player := (player s)\<lparr>x := (if x (player s) > 1 then x (player s) - 2 else x (player s))\<rparr>\<rparr>"
  by (simp add: moveLeft_def)

lemma moveRight_eq:
  "moveRight s = s\<lparr>player := (player s)\<lparr>x := (if x (player s) < GRID_WIDTH - 2 then x (player s) + 2 else x (player s))\<rparr>\<rparr>"
  by (simp add: moveRight_def)

lemma paused_gamepad_eq:
  assumes "started s" "\<not> gameOver s" "paused s" "\<not> (connected inp \<and> pressedStart inp)"
  shows "handleGamepadInput inp s =
    (if connected inp \<and> (leftStickX inp < - 0.5 \<or> dpadX inp < - 0.5) then moveLeft s
     else if connected inp \<and> (leftStickX inp > 0.5 \<or> dpadX inp > 0.5) then moveRight s
     else s)"
    using assms
    by (simp add: handleGamepadInput_def Let_def startGame_def shoot_def restart_def)

lemma paused_keyboard_eq:
  assumes "started s"
  shows "handleKeyboardMovement inp s =
    (if keyDirX inp < 0 then moveLeft s else if keyDirX inp > 0 then moveRight s else s)"
    using assms
    by (simp add: handleKeyboardMovement_def Let_def startGame_def)

lemma paused_after_input:
  assumes "started s" "\<not> gameOver s" "paused s" "\<not> (connected inp \<and> pressedStart inp)"
  shows "update inp s = handleKeyboardMovement inp (handleGamepadInput inp s)"
  using assms
  by (simp add: update_def Let_def paused_gamepad_eq paused_keyboard_eq)

lemma paused_update_eq:
  assumes "started s" "\<not> gameOver s" "paused s" "\<not> (connected inp \<and> pressedStart inp)"
  shows "update inp s = s\<lparr>player := (player s)\<lparr>x := x (player (update inp s))\<rparr>\<rparr>"
  using assms
  by (simp add: paused_after_input paused_gamepad_eq paused_keyboard_eq moveLeft_eq moveRight_eq)

lemma paused_update_player_only:
  assumes "started s" "\<not> gameOver s" "paused s" "\<not> (connected inp \<and> pressedStart inp)"
  shows "\<exists>px. update inp s = s\<lparr>player := (player s)\<lparr>x := px\<rparr>\<rparr>"
  by (rule exI[where x = "x (player (update inp s))"]) (rule paused_update_eq[OF assms])

lemma paused_update_no_movement:
  assumes "started s" "\<not> gameOver s" "paused s" "\<not> (connected inp \<and> pressedStart inp)"
    and "keyDirX inp = 0"
    and "\<not> connected inp \<or>
         (- 0.5 \<le> leftStickX inp \<and> leftStickX inp \<le> 0.5 \<and> - 0.5 \<le> dpadX inp \<and> dpadX inp \<le> 0.5)"
  shows "update inp s = s"
  using assms
  by (auto simp add: paused_after_input paused_gamepad_eq paused_keyboard_eq)

text \<open>
  C2 (amended). While the phase is Paused (started, not game over, paused), a call of
  \<open>update\<close> in which the gamepad's Start button is not pressed changes nothing but,
  possibly, the player's x coordinate: movement input is handled before the pause gate.
  No timer accumulates, and invaders, bullets, barriers, score, lives, level, high score
  and the phase flags stay as they are. With no movement input the call changes nothing
  at all. Toggling pause twice in immediate succession gives back the state exactly.
\<close>

theorem paused_frame_moves_player_only:
  assumes "started s" "\<not> gameOver s" "paused s" "\<not> (connected inp \<and> pressedStart inp)"
  shows "(\<exists>px. update inp s = s\<lparr>player := (player s)\<lparr>x := px\<rparr>\<rparr>)
       \<and> (keyDirX inp = 0 \<and>
            (\<not> connected inp \<or>
             (- 0.5 \<le> leftStickX inp \<and> leftStickX inp \<le> 0.5 \<and>
              - 0.5 \<le> dpadX inp \<and> dpadX inp \<le> 0.5))
            \<longrightarrow> update inp s = s)
       \<and> togglePause (togglePause s) = s"
  using paused_update_player_only[OF assms] paused_update_no_movement[OF assms]
    togglePause_twice by blast

text \<open>C2, witness: the paused game, one frame with the left key held and one idle frame.\<close>

theorem paused_frame_moves_player_only_witness:
  "started pausedGame \<and> \<not> gameOver pausedGame \<and> paused pausedGame
   \<and> \<not> (connected (keyFrame 16 (- 1)) \<and> pressedStart (keyFrame 16 (- 1)))
   \<and> update (keyFrame 16 (- 1)) pausedGame = pausedGame\<lparr>player := \<lparr>x = 28, y = 37\<rparr>\<rparr>
   \<and> update (idleFrame 16 0) pausedGame = pausedGame
   \<and> togglePause (togglePause pausedGame) = pausedGame"
proof -
  have c: "\<not> (connected (keyFrame 16 (- 1)) \<and> pressedStart (keyFrame 16 (- 1)))"
    "\<not> (connected (idleFrame 16 0) \<and> pressedStart (idleFrame 16 0))"
    by (simp_all add: keyFrame_def idleFrame_def)
  note left = paused_frame_moves_player_only[OF pausedGame_phase c(1)]
  note idle = paused_frame_moves_player_only[OF pausedGame_phase c(2)]
  from left obtain px where
    e: "update (keyFrame 16 (- 1)) pausedGame = pausedGame\<lparr>player := (player pausedGame)\<lparr>x := px\<rparr>\<rparr>"
    by blast
  have "x (player (update (keyFrame 16 (- 1)) pausedGame)) = 28"
    by (simp add: update_def handleGamepadInput_def handleKeyboardMovement_def keyFrame_def
        idleFrame_def pausedGame_phase pausedGame_player startGame_def moveLeft_def)
  then have "px = 28" by (simp add: e)
  with e have moved: "update (keyFrame 16 (- 1)) pausedGame = pausedGame\<lparr>player := \<lparr>x = 28, y = 37\<rparr>\<rparr>"
    by (simp add: pausedGame_player)
  have "keyDirX (idleFrame 16 0) = 0" "\<not> connected (idleFrame 16 0)"
    by (simp_all add: idleFrame_def)
  with idle have still: "update (idleFrame 16 0) pausedGame = pausedGame" by blast
  from idle have twice: "togglePause (togglePause pausedGame) = pausedGame" by blast
  show ?thesis
    by (intro conjI) (rule pausedGame_phase c(1) moved still twice)+
qed

text \<open>
  C2 as stated fails: in the paused game, a frame with the left key held moves the player.
\<close>

theorem paused_frame_changes_player_counterexample:
  "paused pausedGame \<and> started pausedGame \<and> \<not> gameOver pausedGame
   \<and> player (update (keyFrame 16 (- 1)) pausedGame) \<noteq> player pausedGame"
  by (simp add: update_def handleGamepadInput_def handleKeyboardMovement_def keyFrame_def
      idleFrame_def pausedGame_phase pausedGame_player startGame_def moveLeft_def)

section \<open>C3: the formation step\<close>

lemma formationStep_invaders:
  "invaders (formationStep s) =
     (if \<exists>v\<in>set (invaders s). alive v \<and> atEdge (invaderDirection s) v
      then map (dropInvader (invaderDropDistance s)) (invaders s)
      else map (slideInvader (invaderDirection s)) (invaders s))"
  by (auto simp add: formationStep_def Let_def list_ex_iff)

lemma formationStep_direction:
  "invaderDirection (formationStep s) =
     (if \<exists>v\<in>set (invaders s). alive v \<and> atEdge (invaderDirection s) v
      then - invaderDirection s else invaderDirection s)"
  by (auto simp add: formationStep_def Let_def list_ex_iff)

lemma moveInvaders_triggered:
  "invaderMoveTimer s + dt \<ge> invaderMoveInterval s \<Longrightarrow>
   moveInvaders dt s = formationStep (s\<lparr>invaderMoveTimer := 0\<rparr>)"
  by (simp add: moveInvaders_def Let_def)

lemma moveInvaders_not_triggered:
  "\<not> invaderMoveTimer s + dt \<ge> invaderMoveInterval s \<Longrightarrow>
   moveInvaders dt s = s\<lparr>invaderMoveTimer := invaderMoveTimer s + dt\<rparr>"
  by (simp add: moveInvaders_def Let_def)

text \<open>
  C3. A triggered formation step (the accumulated time reaches the interval) treats the
  alive invaders as one body; the drop distance is the field \<open>invaderDropDistance\<close>, which is
  2 in every reachable state and which no method assigns. If some alive invader is at
  \<open>x \<ge> W - 3\<close> while the direction is \<open>+1\<close>, or at \<open>x \<le> 1\<close> while it is \<open>-1\<close>, every alive
  invader's y grows by exactly 2, the direction flips and no x changes. Otherwise every
  alive invader's x changes by exactly the direction, and neither a y nor the direction
  changes. Dead invaders, liveness and types are as before in both cases.
\<close>

theorem formation_step_atomic:
  assumes "invaderMoveTimer s + dt \<ge> invaderMoveInterval s"
    and "invaderDropDistance s = 2"
  shows "length (invaders (moveInvaders dt s)) = length (invaders s)
       \<and> (if \<exists>v\<in>set (invaders s). alive v \<and>
               ((invaderDirection s = 1 \<and> x v \<ge> GRID_WIDTH - 3)
                \<or> (invaderDirection s = - 1 \<and> x v \<le> 1))
          then invaderDirection (moveInvaders dt s) = - invaderDirection s
             \<and> (\<forall>i < length (invaders s).
                   x (invaders (moveInvaders dt s) ! i) = x (invaders s ! i)
                 \<and> y (invaders (moveInvaders dt s) ! i) =
                     (if alive (invaders s ! i) then y (invaders s ! i) + 2
                      else y (invaders s ! i))
                 \<and> alive (invaders (moveInvaders dt s) ! i) = alive (invaders s ! i)
                 \<and> type (invaders (moveInvaders dt s) ! i) = type (invaders s ! i))
          else invaderDirection (moveInvaders dt s) = invaderDirection s
             \<and> (\<forall>i < length (invaders s).
                   x (invaders (moveInvaders dt s) ! i) =
                     (if alive (invaders s ! i) then x (invaders s ! i) + invaderDirection s
                      else x (invaders s ! i))
                 \<and> y (invaders (moveInvaders dt s) ! i) = y (invaders s ! i)
                 \<and> alive (invaders (moveInvaders dt s) ! i) = alive (invaders s ! i)
                 \<and> type (invaders (moveInvaders dt s) ! i) = type (invaders s ! i)))"
proof -
  define edge where
    "edge \<longleftrightarrow> (\<exists>v\<in>set (invaders s). alive v \<and>
               ((invaderDirection s = 1 \<and> x v \<ge> GRID_WIDTH - 3)
                \<or> (invaderDirection s = - 1 \<and> x v \<le> 1)))"
  have c: "(\<exists>v\<in>set (invaders s). alive v \<and> atEdge (invaderDirection s) v) = edge"
    by (simp add: edge_def atEdge_def)
  have m: "moveInvaders dt s = formationStep (s\<lparr>invaderMoveTimer := 0\<rparr>)"
    using assms(1) by (rule moveInvaders_triggered)
  have i: "invaders (moveInvaders dt s) =
             (if edge then map (dropInvader 2) (invaders s)
              else map (slideInvader (invaderDirection s)) (invaders s))"
    using assms(2) by (simp add: m formationStep_invaders c)
  have d: "invaderDirection (moveInvaders dt s) =
             (if edge then - invaderDirection s else invaderDirection s)"
    by (simp add: m formationStep_direction c)
  show ?thesis
    unfolding edge_def[symmetric]
    by (cases edge) (simp_all add: i d dropInvader_def slideInvader_def)
qed

lemma edgeGame_eval:
  "(let g = edgeGame in
      (invaderMoveTimer g, invaderMoveInterval g, invaderDropDistance g, invaderDirection g,
       length (invaders g), invaders g ! 10))
   = (0, 700, 2, 1, 55, \<lparr>x = 57, y = 5, type = 2, alive = True\<rparr>)"
  unfolding edgeGame_def by code_simp

lemma edgeGame_facts:
  "invaderMoveTimer edgeGame = 0" "invaderMoveInterval edgeGame = 700"
  "invaderDropDistance edgeGame = 2" "invaderDirection edgeGame = 1"
  "length (invaders edgeGame) = 55"
  "invaders edgeGame ! 10 = \<lparr>x = 57, y = 5, type = 2, alive = True\<rparr>"
  using edgeGame_eval by (simp_all add: Let_def)

text \<open>
  C3, witness: with the rightmost column at \<open>x = 57\<close> and direction \<open>+1\<close>, the next step drops the
  top-right invader from row 5 to row 7, keeps its column and turns the formation.
\<close>

theorem formation_step_atomic_witness:
  "reachable edgeGame
   \<and> invaderMoveTimer edgeGame + 700 \<ge> invaderMoveInterval edgeGame
   \<and> invaderDropDistance edgeGame = 2
   \<and> invaderDirection edgeGame = 1 \<and> x (invaders edgeGame ! 10) \<ge> GRID_WIDTH - 3
   \<and> invaderDirection (moveInvaders 700 edgeGame) = - 1
   \<and> x (invaders (moveInvaders 700 edgeGame) ! 10) = 57
   \<and> y (invaders (moveInvaders 700 edgeGame) ! 10) = 7"
proof -
  have trig: "invaderMoveTimer edgeGame + 700 \<ge> invaderMoveInterval edgeGame"
    by (simp add: edgeGame_facts)
  have "invaders edgeGame ! 10 \<in> set (invaders edgeGame)"
    by (rule nth_mem) (simp add: edgeGame_facts)
  then have edge: "\<exists>v\<in>set (invaders edgeGame). alive v \<and>
               ((invaderDirection edgeGame = 1 \<and> x v \<ge> GRID_WIDTH - 3)
                \<or> (invaderDirection edgeGame = - 1 \<and> x v \<le> 1))"
    by (rule bexI[rotated]) (simp add: edgeGame_facts GRID_WIDTH_def)
  have r: "reachable edgeGame"
    unfolding edgeGame_def by (rule reachable_run_newGame)
  show ?thesis
    using formation_step_atomic[OF trig edgeGame_facts(3)] edge trig r
    by (simp add: edgeGame_facts GRID_WIDTH_def)
qed

section \<open>C4: the life counter\<close>

lemma livesOK_cong:
  "lives t = lives s \<Longrightarrow> gameOver t = gameOver s \<Longrightarrow> livesOK t = livesOK s"
  by (simp add: livesOK_def)

lemma livesOK_bulletVsPlayer: "livesOK s \<Longrightarrow> livesOK (bulletVsPlayer i s)"
  by (auto simp add: livesOK_def bulletVsPlayer_def Let_def)

lemma livesOK_playerCollisions: "livesOK s \<Longrightarrow> livesOK (playerCollisions n s)"
  by (induction n arbitrary: s) (simp_all add: livesOK_bulletVsPlayer)

lemma livesOK_updateBullets: "livesOK s \<Longrightarrow> livesOK (updateBullets s)"
proof -
  assume a: "livesOK s"
  let ?s2 = "barrierCollisions
               (length (bullets (invaderCollisions (length (bullets (pruneBullets s))) (pruneBullets s))))
               (invaderCollisions (length (bullets (pruneBullets s))) (pruneBullets s))"
  have "livesOK ?s2" using a by (simp add: livesOK_def)
  then show ?thesis
    by (simp add: updateBullets_def resolveCollisions_def Let_def livesOK_playerCollisions)
qed

lemma livesOK_fold_reachedPlayer: "livesOK s \<Longrightarrow> livesOK (fold reachedPlayer vs s)"
proof (induction vs arbitrary: s)
  case Nil
  then show ?case by simp
next
  case (Cons v vs)
  have "livesOK (reachedPlayer v s)"
    using Cons.prems by (simp add: livesOK_def reachedPlayer_def)
  then show ?case using Cons.IH by simp
qed

lemma livesOK_moveInvaders: "livesOK s \<Longrightarrow> livesOK (moveInvaders dt s)"
proof -
  assume a: "livesOK s"
  have "\<And>t vs. lives t = lives s \<Longrightarrow> gameOver t = gameOver s
          \<Longrightarrow> livesOK (fold reachedPlayer vs t)"
    using a by (intro livesOK_fold_reachedPlayer) (simp add: livesOK_def)
  then show ?thesis
    using a livesOK_cong[of "s\<lparr>invaderMoveTimer := invaderMoveTimer s + dt\<rparr>" s]
    by (simp add: moveInvaders_def formationStep_def Let_def)
qed

lemma livesOK_advance: "livesOK s \<Longrightarrow> livesOK (advance inp s)"
proof -
  assume a: "livesOK s"
  have m: "\<And>t. lives t = lives s \<Longrightarrow> gameOver t = gameOver s
          \<Longrightarrow> livesOK (moveInvaders (deltaTime inp) t)"
    using a by (intro livesOK_moveInvaders) (simp add: livesOK_def)
  have u: "\<And>t u. livesOK t \<Longrightarrow> lives u = lives t \<Longrightarrow> gameOver u = gameOver t
          \<Longrightarrow> livesOK (updateBullets u)"
    by (intro livesOK_updateBullets) (simp add: livesOK_def)
  show ?thesis
    unfolding advance_def Let_def
    by (rule u[OF m[of "if 0 < shootCooldown s then s\<lparr>shootCooldown := shootCooldown s - deltaTime inp\<rparr> else s"]])
       simp_all
qed

lemma livesOK_simulate: "livesOK s \<Longrightarrow> livesOK (simulate inp s)"
  using livesOK_advance[of s inp] by (simp add: simulate_def Let_def livesOK_def)

lemma livesOK_restart: "livesOK s \<Longrightarrow> livesOK (restart s)"
  by (simp add: restart_def livesOK_def initGame_def)

lemma livesOK_gamepad: "livesOK s \<Longrightarrow> livesOK (handleGamepadInput inp s)"
  by (simp add: handleGamepadInput_def Let_def livesOK_restart
      livesOK_cong[of "startGame _"] livesOK_cong[of "shoot _"] livesOK_cong[of "togglePause _"]
      livesOK_cong[of "moveLeft _"] livesOK_cong[of "moveRight _"])

lemma livesOK_update: "livesOK s \<Longrightarrow> livesOK (update inp s)"
proof -
  assume "livesOK s"
  then have "livesOK (handleGamepadInput inp s)" by (rule livesOK_gamepad)
  then have "livesOK (handleKeyboardMovement inp (handleGamepadInput inp s))"
    by (simp add: livesOK_def handleKeyboardMovement_def Let_def)
  then show ?thesis by (simp add: update_def Let_def livesOK_simulate)
qed

lemma livesOK_step: "livesOK s \<Longrightarrow> livesOK (step e s)"
  by (cases e)
    (simp_all add: livesOK_update livesOK_restart livesOK_cong[of "shoot _"]
      livesOK_cong[of "togglePause _"])

lemma lives_bounds:
  "reachable s \<Longrightarrow> lives s \<le> 3 \<and> (\<not> gameOver s \<longrightarrow> 1 \<le> lives s)"
proof (induction rule: reachable.induct)
  case reachable_init
  then show ?case by simp
next
  case (reachable_step s e)
  then show ?case using livesOK_step[of s e] by (simp add: livesOK_def)
qed

text \<open>
  The lower bound is lost in the frame that ends the game: \<open>playerCollisions\<close> takes one
  life for every enemy bullet on the player and goes on after the counter has reached 0.
\<close>

lemma volley_eval:
  "(let g = run (butlast volley) newGame in (lives g, gameOver g, bullets g, player g))
   = (3, False,
      [\<lparr>x = 31, y = 36, isPlayerBullet = False\<rparr>, \<lparr>x = 29, y = 36, isPlayerBullet = False\<rparr>,
       \<lparr>x = 30, y = 36, isPlayerBullet = False\<rparr>, \<lparr>x = 31, y = 36, isPlayerBullet = False\<rparr>],
      \<lparr>x = 30, y = 37\<rparr>)
   \<and> (let g = run volley newGame in (lives g, gameOver g, bullets g)) = (- 1, True, [])"
  unfolding volley_def by code_simp

text \<open>
  C4 fails on the code. Before the last frame of \<open>volley\<close> the player at \<open>(30, 37)\<close> has 3
  lives and four enemy bullets stand in row 36, in columns 29 to 31. The last frame moves
  them onto the player's row and resolves four hits: the life counter is \<open>-1\<close>, below the
  range 0 to 3, and the game is over.
\<close>

theorem lives_negative_after_volley:
  "lives (run (butlast volley) newGame) = 3
   \<and> bullets (run (butlast volley) newGame) =
      [\<lparr>x = 31, y = 36, isPlayerBullet = False\<rparr>, \<lparr>x = 29, y = 36, isPlayerBullet = False\<rparr>,
       \<lparr>x = 30, y = 36, isPlayerBullet = False\<rparr>, \<lparr>x = 31, y = 36, isPlayerBullet = False\<rparr>]
   \<and> player (run (butlast volley) newGame) = \<lparr>x = 30, y = 37\<rparr>
   \<and> lives (run volley newGame) = - 1
   \<and> gameOver (run volley newGame)"
  using volley_eval by (simp add: Let_def)

text \<open>C4, the reachable state with a negative life counter.\<close>

theorem lives_negative_after_volley_witness:
  "lives (run volley newGame) < 0"
  using lives_negative_after_volley by simp

section \<open>C5: one hit per bullet\<close>

lemma length_splice1: "i < length xs \<Longrightarrow> Suc (length (splice1 i xs)) = length xs"
  by (auto simp add: splice1_def)

lemma subseq_splice1: "subseq (splice1 i xs) xs"
proof -
  have "suffix (drop 1 (drop i xs)) (drop i xs)" by (rule suffix_drop)
  then have "subseq (drop (Suc i) xs) (drop i xs)" by (simp add: suffix_imp_subseq)
  then have "subseq (take i xs @ drop (Suc i) xs) (take i xs @ drop i xs)"
    by (simp only: subseq_append')
  then show ?thesis by (simp add: splice1_def)
qed

lemma alive_count_kill:
  "k < length vs \<Longrightarrow> alive (vs ! k) \<Longrightarrow>
   Suc (length (filter alive (vs[k := (vs ! k)\<lparr>alive := False\<rparr>]))) = length (filter alive vs)"
proof (induction vs arbitrary: k)
  case Nil
  then show ?case by simp
next
  case (Cons v vs)
  then show ?case by (cases k) auto
qed

lemma bulletVsInvaders_cases:
  assumes "i < length (bullets s)"
  shows "bulletVsInvaders i s = s
       \<or> (bullets (bulletVsInvaders i s) = splice1 i (bullets s)
          \<and> cues Explosion (bulletVsInvaders i s) = cues Explosion s + 1
          \<and> Suc (aliveCount (bulletVsInvaders i s)) = aliveCount s)"
proof (cases "isPlayerBullet (bullets s ! i)")
  case False
  then show ?thesis by (simp add: bulletVsInvaders_def Let_def)
next
  case True
  show ?thesis
  proof (cases "firstHit (bullets s ! i) (invaders s)")
    case None
    then show ?thesis by (simp add: bulletVsInvaders_def Let_def)
  next
    case (Some k)
    then have "k < length (invaders s)" "alive (invaders s ! k)"
      using firstHit_Some[OF Some] by (simp_all add: hitsInvader_def)
    then show ?thesis
      using True Some by (simp add: bulletVsInvaders_def Let_def aliveCount_def alive_count_kill)
  qed
qed

lemma bulletVsBarriers_cases:
  "bulletVsBarriers i s = s
   \<or> (bullets (bulletVsBarriers i s) = splice1 i (bullets s)
      \<and> cues BarrierHit (bulletVsBarriers i s) = cues BarrierHit s + 1)"
  by (simp add: bulletVsBarriers_def Let_def split: option.splits)

lemma bulletVsPlayer_cases:
  "bulletVsPlayer i s = s
   \<or> (bullets (bulletVsPlayer i s) = splice1 i (bullets s)
      \<and> cues PlayerHit (bulletVsPlayer i s) = cues PlayerHit s + 1
      \<and> lives (bulletVsPlayer i s) = lives s - 1)"
  by (simp add: bulletVsPlayer_def Let_def)

lemma invaderCollisions_count:
  "n \<le> length (bullets s) \<Longrightarrow>
   length (bullets (invaderCollisions n s)) + cues Explosion (invaderCollisions n s)
     = length (bullets s) + cues Explosion s
   \<and> aliveCount (invaderCollisions n s) + cues Explosion (invaderCollisions n s)
     = aliveCount s + cues Explosion s
   \<and> subseq (bullets (invaderCollisions n s)) (bullets s)"
proof (induction n arbitrary: s)
  case 0
  then show ?case by simp
next
  case (Suc n)
  then have n: "n < length (bullets s)" by simp
  let ?t = "bulletVsInvaders n s"
  from bulletVsInvaders_cases[OF n] show ?case
  proof
    assume "?t = s"
    then show ?thesis using Suc.IH[of s] n by simp
  next
    assume h: "bullets ?t = splice1 n (bullets s)
          \<and> cues Explosion ?t = cues Explosion s + 1 \<and> Suc (aliveCount ?t) = aliveCount s"
    then have len: "Suc (length (bullets ?t)) = length (bullets s)"
      using length_splice1[OF n] by simp
    then have "n \<le> length (bullets ?t)" using n by simp
    from Suc.IH[OF this] h len subseq_splice1[of n "bullets s"]
    show ?thesis
      by (auto intro: subseq_order.order_trans)
  qed
qed

lemma barrierCollisions_count:
  "n \<le> length (bullets s) \<Longrightarrow>
   length (bullets (barrierCollisions n s)) + cues BarrierHit (barrierCollisions n s)
     = length (bullets s) + cues BarrierHit s
   \<and> subseq (bullets (barrierCollisions n s)) (bullets s)"
proof (induction n arbitrary: s)
  case 0
  then show ?case by simp
next
  case (Suc n)
  then have n: "n < length (bullets s)" by simp
  let ?t = "bulletVsBarriers n s"
  from bulletVsBarriers_cases[of n s] show ?case
  proof
    assume "?t = s"
    then show ?thesis using Suc.IH[of s] n by simp
  next
    assume h: "bullets ?t = splice1 n (bullets s)
          \<and> cues BarrierHit ?t = cues BarrierHit s + 1"
    then have len: "Suc (length (bullets ?t)) = length (bullets s)"
      using length_splice1[OF n] by simp
    then have "n \<le> length (bullets ?t)" using n by simp
    from Suc.IH[OF this] h len subseq_splice1[of n "bullets s"]
    show ?thesis
      by (auto intro: subseq_order.order_trans)
  qed
qed

lemma playerCollisions_count:
  "n \<le> length (bullets s) \<Longrightarrow>
   length (bullets (playerCollisions n s)) + cues PlayerHit (playerCollisions n s)
     = length (bullets s) + cues PlayerHit s
   \<and> lives (playerCollisions n s) + int (cues PlayerHit (playerCollisions n s))
     = lives s + int (cues PlayerHit s)
   \<and> subseq (bullets (playerCollisions n s)) (bullets s)"
proof (induction n arbitrary: s)
  case 0
  then show ?case by simp
next
  case (Suc n)
  then have n: "n < length (bullets s)" by simp
  let ?t = "bulletVsPlayer n s"
  from bulletVsPlayer_cases[of n s] show ?case
  proof
    assume "?t = s"
    then show ?thesis using Suc.IH[of s] n by simp
  next
    assume h: "bullets ?t = splice1 n (bullets s)
          \<and> cues PlayerHit ?t = cues PlayerHit s + 1 \<and> lives ?t = lives s - 1"
    then have len: "Suc (length (bullets ?t)) = length (bullets s)"
      using length_splice1[OF n] by simp
    then have "n \<le> length (bullets ?t)" using n by simp
    from Suc.IH[OF this] h len subseq_splice1[of n "bullets s"]
    show ?thesis
      by (auto intro: subseq_order.order_trans)
  qed
qed

lemma aliveCount_keeps [simp]:
  "aliveCount (barrierCollisions n s) = aliveCount s"
  "aliveCount (playerCollisions n s) = aliveCount s"
  "aliveCount (pruneBullets s) = aliveCount s"
  by (simp_all add: aliveCount_def)

lemma resolveCollisions_count:
  "length (bullets (resolveCollisions s)) + hitCues (resolveCollisions s)
     = length (bullets s) + hitCues s
   \<and> aliveCount (resolveCollisions s) + cues Explosion (resolveCollisions s)
     = aliveCount s + cues Explosion s
   \<and> lives (resolveCollisions s) + int (cues PlayerHit (resolveCollisions s))
     = lives s + int (cues PlayerHit s)
   \<and> subseq (bullets (resolveCollisions s)) (bullets s)"
proof -
  let ?s1 = "invaderCollisions (length (bullets s)) s"
  let ?s2 = "barrierCollisions (length (bullets ?s1)) ?s1"
  let ?s3 = "playerCollisions (length (bullets ?s2)) ?s2"
  have r: "resolveCollisions s = ?s3" by (simp add: resolveCollisions_def Let_def)
  note a = invaderCollisions_count[of "length (bullets s)" s, simplified]
  note b = barrierCollisions_count[of "length (bullets ?s1)" ?s1, simplified]
  note c = playerCollisions_count[of "length (bullets ?s2)" ?s2, simplified]
  have e: "cues Explosion ?s3 = cues Explosion ?s1"
    by (simp add: cues_playerCollisions cues_barrierCollisions)
  have h: "cues BarrierHit ?s3 = cues BarrierHit ?s2" "cues BarrierHit ?s1 = cues BarrierHit s"
    by (simp_all add: cues_playerCollisions cues_invaderCollisions)
  have p: "cues PlayerHit ?s2 = cues PlayerHit s"
    by (simp add: cues_barrierCollisions cues_invaderCollisions)
  have sub: "subseq (bullets ?s3) (bullets s)"
    using a b c by (blast intro: subseq_order.order_trans)
  have l: "lives ?s2 = lives s" by simp
  have al: "aliveCount ?s3 = aliveCount ?s1" by simp
  show ?thesis
    unfolding r hitCues_def using a b c e h p sub l al by simp
qed

lemma hitCues_bodies:
  "hitCues (bulletVsInvaders i s) = hitCues s + (cues Explosion (bulletVsInvaders i s) - cues Explosion s)"
  "hitCues (bulletVsBarriers i s) = hitCues s + (cues BarrierHit (bulletVsBarriers i s) - cues BarrierHit s)"
  "hitCues (bulletVsPlayer i s) = hitCues s + (cues PlayerHit (bulletVsPlayer i s) - cues PlayerHit s)"
  by (simp_all add: hitCues_def bulletVsInvaders_def bulletVsBarriers_def bulletVsPlayer_def
      Let_def split: option.splits)

lemma firstHit_first:
  "firstHit b vs = Some k \<Longrightarrow> \<forall>k'<k. \<not> hitsInvader b (vs ! k')"
proof (induction vs arbitrary: k)
  case Nil
  then show ?case by simp
next
  case (Cons v vs)
  show ?case
  proof (cases "hitsInvader b v")
    case True
    then show ?thesis using Cons.prems by simp
  next
    case False
    then obtain m where m: "firstHit b vs = Some m" "k = Suc m"
      using Cons.prems by auto
    show ?thesis
    proof (intro allI impI)
      fix k' assume "k' < k"
      then show "\<not> hitsInvader b ((v # vs) ! k')"
        using False Cons.IH[OF m(1)] m(2) by (cases k') auto
    qed
  qed
qed

lemma lastHit_None:
  "lastHit b bars n = None \<Longrightarrow> \<forall>j<n. \<not> (x b = x (bars ! j) \<and> y b = y (bars ! j))"
  by (induction n) (auto split: if_splits simp add: less_Suc_eq)

lemma lastHit_spec:
  "lastHit b bars n = Some j \<Longrightarrow>
   j < n \<and> x b = x (bars ! j) \<and> y b = y (bars ! j)
   \<and> (\<forall>j'. j < j' \<and> j' < n \<longrightarrow> \<not> (x b = x (bars ! j') \<and> y b = y (bars ! j')))"
  by (induction n) (auto split: if_splits simp add: less_Suc_eq)

lemma bulletVsInvaders_spec:
  "(bulletVsInvaders i s = s
    \<and> (\<not> isPlayerBullet (bullets s ! i)
       \<or> (\<forall>v\<in>set (invaders s).
            \<not> (alive v \<and> \<bar>x (bullets s ! i) - x v\<bar> \<le> 1 \<and> y (bullets s ! i) = y v))))
   \<or> (\<exists>k<length (invaders s).
         isPlayerBullet (bullets s ! i)
       \<and> alive (invaders s ! k)
       \<and> \<bar>x (bullets s ! i) - x (invaders s ! k)\<bar> \<le> 1
       \<and> y (bullets s ! i) = y (invaders s ! k)
       \<and> (\<forall>k'<k. \<not> (alive (invaders s ! k')
                      \<and> \<bar>x (bullets s ! i) - x (invaders s ! k')\<bar> \<le> 1
                      \<and> y (bullets s ! i) = y (invaders s ! k')))
       \<and> bulletVsInvaders i s =
           s\<lparr>invaders := (invaders s)[k := (invaders s ! k)\<lparr>alive := False\<rparr>],
             bullets := splice1 i (bullets s),
             score := score s + (type (invaders s ! k) + 1) * 10,
             played := played s @ [Explosion]\<rparr>)"
proof (cases "isPlayerBullet (bullets s ! i)")
  case False
  then show ?thesis by (simp add: bulletVsInvaders_def Let_def)
next
  case True
  show ?thesis
  proof (cases "firstHit (bullets s ! i) (invaders s)")
    case None
    from firstHit_None[OF None] have "\<forall>v\<in>set (invaders s).
            \<not> (alive v \<and> \<bar>x (bullets s ! i) - x v\<bar> \<le> 1 \<and> y (bullets s ! i) = y v)"
      by (simp add: hitsInvader_def)
    moreover have "bulletVsInvaders i s = s"
      using None by (simp add: bulletVsInvaders_def Let_def)
    ultimately show ?thesis by blast
  next
    case (Some k)
    have k: "k < length (invaders s)" "hitsInvader (bullets s ! i) (invaders s ! k)"
      using firstHit_Some[OF Some] by simp_all
    have f: "\<forall>k'<k. \<not> hitsInvader (bullets s ! i) (invaders s ! k')"
      using firstHit_first[OF Some] .
    have e: "bulletVsInvaders i s =
           s\<lparr>invaders := (invaders s)[k := (invaders s ! k)\<lparr>alive := False\<rparr>],
             bullets := splice1 i (bullets s),
             score := score s + (type (invaders s ! k) + 1) * 10,
             played := played s @ [Explosion]\<rparr>"
      using True Some by (simp add: bulletVsInvaders_def Let_def play_def)
    show ?thesis
      apply (rule disjI2)
      apply (rule exI[where x = k])
      using k f True e unfolding hitsInvader_def by blast
  qed
qed

lemma bulletVsBarriers_spec:
  "(bulletVsBarriers i s = s
    \<and> (\<forall>j<length (barriers s).
          \<not> (x (bullets s ! i) = x (barriers s ! j) \<and> y (bullets s ! i) = y (barriers s ! j))))
   \<or> (\<exists>j<length (barriers s).
         x (bullets s ! i) = x (barriers s ! j) \<and> y (bullets s ! i) = y (barriers s ! j)
       \<and> (\<forall>j'. j < j' \<and> j' < length (barriers s) \<longrightarrow>
             \<not> (x (bullets s ! i) = x (barriers s ! j')
                \<and> y (bullets s ! i) = y (barriers s ! j')))
       \<and> bulletVsBarriers i s =
           s\<lparr>barriers :=
               (if health (barriers s ! j) - 1 \<le> 0 then splice1 j (barriers s)
                else (barriers s)[j := (barriers s ! j)\<lparr>health := health (barriers s ! j) - 1\<rparr>]),
             bullets := splice1 i (bullets s),
             played := played s @ [BarrierHit]\<rparr>)"
proof (cases "lastHit (bullets s ! i) (barriers s) (length (barriers s))")
  case None
  from lastHit_None[OF None] have "\<forall>j<length (barriers s).
          \<not> (x (bullets s ! i) = x (barriers s ! j) \<and> y (bullets s ! i) = y (barriers s ! j))" .
  moreover have "bulletVsBarriers i s = s"
    using None by (simp add: bulletVsBarriers_def Let_def)
  ultimately show ?thesis by blast
next
  case (Some j)
  note sp = lastHit_spec[OF Some]
  have e: "bulletVsBarriers i s =
           s\<lparr>barriers :=
               (if health (barriers s ! j) - 1 \<le> 0 then splice1 j (barriers s)
                else (barriers s)[j := (barriers s ! j)\<lparr>health := health (barriers s ! j) - 1\<rparr>]),
             bullets := splice1 i (bullets s),
             played := played s @ [BarrierHit]\<rparr>"
    using Some by (simp add: bulletVsBarriers_def Let_def play_def damageBarrier_def)
  show ?thesis
    apply (rule disjI2)
    apply (rule exI[where x = j])
    using sp e by blast
qed

lemma bulletVsPlayer_spec:
  "(bulletVsPlayer i s = s
    \<and> \<not> (\<not> isPlayerBullet (bullets s ! i)
         \<and> \<bar>x (bullets s ! i) - x (player s)\<bar> \<le> 1 \<and> y (bullets s ! i) = y (player s)))
   \<or> (\<not> isPlayerBullet (bullets s ! i)
      \<and> \<bar>x (bullets s ! i) - x (player s)\<bar> \<le> 1 \<and> y (bullets s ! i) = y (player s)
      \<and> bulletVsPlayer i s =
          s\<lparr>bullets := splice1 i (bullets s),
            lives := lives s - 1,
            gameOver := (gameOver s \<or> lives s - 1 \<le> 0),
            played := played s @ (if lives s - 1 \<le> 0 then [PlayerHit, GameOverSound]
                                  else [PlayerHit])\<rparr>)"
  by (simp add: bulletVsPlayer_def Let_def hitsPlayer_def play_def)

lemma sum_list_splice1:
  "j < length xs \<Longrightarrow> sum_list (splice1 j xs) = sum_list xs - (xs ! j :: int)"
proof -
  assume j: "j < length xs"
  have "xs = take j xs @ xs ! j # drop (Suc j) xs" using j by (rule id_take_nth_drop)
  then have "sum_list xs = sum_list (take j xs) + xs ! j + sum_list (drop (Suc j) xs)"
    by (metis add.assoc sum_list.Cons sum_list.append)
  then show ?thesis by (simp add: splice1_def)
qed

lemma sum_list_update_int:
  "j < length xs \<Longrightarrow> sum_list (xs[j := v]) = sum_list xs - (xs ! j :: int) + v"
proof (induction xs arbitrary: j)
  case Nil
  then show ?case by simp
next
  case (Cons a xs)
  then show ?case by (cases j) simp_all
qed

lemma map_splice1: "map f (splice1 j xs) = splice1 j (map f xs)"
  by (simp add: splice1_def take_map drop_map)

lemma set_splice1: "set (splice1 j xs) \<subseteq> set xs"
  unfolding splice1_def by (auto dest: in_set_takeD in_set_dropD)

lemma damageBarrier_health:
  assumes "j < length bars" "\<forall>b\<in>set bars. 1 \<le> health b"
  shows "sum_list (map health (damageBarrier j bars)) = sum_list (map health bars) - 1"
    "\<forall>b\<in>set (damageBarrier j bars). 1 \<le> health b"
proof -
  have h: "1 \<le> health (bars ! j)" using assms by simp
  show "sum_list (map health (damageBarrier j bars)) = sum_list (map health bars) - 1"
  proof (cases "health (bars ! j) - 1 \<le> 0")
    case True
    then have "health (bars ! j) = 1" using h by simp
    then show ?thesis
      using True assms(1)
      by (simp add: damageBarrier_def Let_def map_splice1 sum_list_splice1)
  next
    case False
    then show ?thesis
      using assms(1)
      by (simp add: damageBarrier_def Let_def map_update sum_list_update_int)
  qed
  show "\<forall>b\<in>set (damageBarrier j bars). 1 \<le> health b"
  proof (cases "health (bars ! j) - 1 \<le> 0")
    case True
    then show ?thesis
      using assms(2) set_splice1[of j bars] by (auto simp add: damageBarrier_def Let_def)
  next
    case False
    let ?v = "(bars ! j)\<lparr>health := health (bars ! j) - 1\<rparr>"
    have d: "damageBarrier j bars = bars[j := ?v]"
      using False by (simp add: damageBarrier_def Let_def)
    show ?thesis
      unfolding d
    proof
      fix b assume "b \<in> set (bars[j := ?v])"
      then have "b = ?v \<or> b \<in> set bars"
        using set_update_subset_insert[of bars j ?v] by blast
      then show "1 \<le> health b"
        using False assms(2) by auto
    qed
  qed
qed

lemma bulletVsBarriers_health:
  assumes "barriersOK s"
  shows "barriersOK (bulletVsBarriers i s)
       \<and> barrierHealth (bulletVsBarriers i s) + int (cues BarrierHit (bulletVsBarriers i s))
         = barrierHealth s + int (cues BarrierHit s)"
proof (cases "lastHit (bullets s ! i) (barriers s) (length (barriers s))")
  case None
  then show ?thesis using assms by (simp add: bulletVsBarriers_def Let_def)
next
  case (Some j)
  then have j: "j < length (barriers s)" by (rule lastHit_Some)
  from damageBarrier_health[OF j] assms Some show ?thesis
    by (simp add: bulletVsBarriers_def Let_def barriersOK_def barrierHealth_def)
qed

lemma barrierCollisions_health:
  "barriersOK s \<Longrightarrow>
   barriersOK (barrierCollisions n s)
   \<and> barrierHealth (barrierCollisions n s) + int (cues BarrierHit (barrierCollisions n s))
     = barrierHealth s + int (cues BarrierHit s)"
proof (induction n arbitrary: s)
  case 0
  then show ?case by simp
next
  case (Suc n)
  from bulletVsBarriers_health[OF Suc.prems, of n] Suc.IH[of "bulletVsBarriers n s"]
  show ?case by simp
qed

lemma barrierHealth_cong: "barriers t = barriers s \<Longrightarrow> barrierHealth t = barrierHealth s"
  by (simp add: barrierHealth_def)

lemma barriersOK_cong: "barriers t = barriers s \<Longrightarrow> barriersOK t = barriersOK s"
  by (simp add: barriersOK_def)

lemma updateBullets_health:
  assumes "barriersOK s"
  shows "barriersOK (updateBullets s)"
    "barrierHealth (updateBullets s) + int (cues BarrierHit (updateBullets s))
       = barrierHealth s + int (cues BarrierHit s)"
proof -
  let ?s0 = "pruneBullets s"
  let ?s1 = "invaderCollisions (length (bullets ?s0)) ?s0"
  let ?s2 = "barrierCollisions (length (bullets ?s1)) ?s1"
  let ?s3 = "playerCollisions (length (bullets ?s2)) ?s2"
  have r: "updateBullets s = ?s3"
    by (simp add: updateBullets_def resolveCollisions_def Let_def)
  have ok1: "barriersOK ?s1" using assms by (simp add: barriersOK_def)
  note b = barrierCollisions_health[OF ok1, of "length (bullets ?s1)"]
  have "barrierHealth ?s3 = barrierHealth ?s2" "barriersOK ?s3 = barriersOK ?s2"
    "cues BarrierHit ?s3 = cues BarrierHit ?s2"
    by (simp_all add: barrierHealth_def barriersOK_def cues_playerCollisions)
  moreover have "barrierHealth ?s1 = barrierHealth s" "cues BarrierHit ?s1 = cues BarrierHit s"
    by (simp_all add: barrierHealth_def cues_invaderCollisions)
  ultimately show "barriersOK (updateBullets s)"
    "barrierHealth (updateBullets s) + int (cues BarrierHit (updateBullets s))
       = barrierHealth s + int (cues BarrierHit s)"
    using b unfolding r by simp_all
qed

lemma barriersOK_fresh: "\<forall>b\<in>set freshBarriers. 1 \<le> health b"
  by (auto simp add: freshBarriers_def)

lemma barriersOK_restart: "barriersOK s \<Longrightarrow> barriersOK (restart s)"
  by (simp add: restart_def barriersOK_def initGame_def spawnBarriers_def barriersOK_fresh)

lemma barriersOK_gamepad: "barriersOK s \<Longrightarrow> barriersOK (handleGamepadInput inp s)"
  by (simp add: handleGamepadInput_def Let_def barriersOK_restart
      barriersOK_cong[of "startGame _"] barriersOK_cong[of "shoot _"]
      barriersOK_cong[of "togglePause _"] barriersOK_cong[of "moveLeft _"]
      barriersOK_cong[of "moveRight _"])

lemma barriersOK_advance: "barriersOK s \<Longrightarrow> barriersOK (advance inp s)"
proof -
  assume a: "barriersOK s"
  have "\<And>t. barriers t = barriers s \<Longrightarrow> barriersOK (updateBullets t)"
    using a by (intro updateBullets_health(1)) (simp add: barriersOK_def)
  then show ?thesis by (simp add: advance_def Let_def)
qed

lemma barriersOK_simulate: "barriersOK s \<Longrightarrow> barriersOK (simulate inp s)"
  using barriersOK_advance[of s inp]
  by (simp add: simulate_def Let_def barriersOK_def checkLevelComplete_def spawnBarriers_def
      barriersOK_fresh)

lemma barriersOK_update: "barriersOK s \<Longrightarrow> barriersOK (update inp s)"
proof -
  assume "barriersOK s"
  then have "barriersOK (handleGamepadInput inp s)" by (rule barriersOK_gamepad)
  then have "barriersOK (handleKeyboardMovement inp (handleGamepadInput inp s))"
    by (simp add: barriersOK_def handleKeyboardMovement_def Let_def)
  then show ?thesis by (simp add: update_def Let_def barriersOK_simulate)
qed

lemma barriersOK_step: "barriersOK s \<Longrightarrow> barriersOK (step e s)"
  by (cases e)
    (simp_all add: barriersOK_update barriersOK_restart barriersOK_cong[of "shoot _"]
      barriersOK_cong[of "togglePause _"])

lemma reachable_barriersOK: "reachable s \<Longrightarrow> \<forall>b\<in>set (barriers s). 1 \<le> health b"
proof (induction rule: reachable.induct)
  case reachable_init
  then show ?case by (simp add: barriersOK_fresh)
next
  case (reachable_step s e)
  then show ?case using barriersOK_step[of s e] by (simp add: barriersOK_def)
qed

text \<open>Invaders: each one is as before, or was alive and is now dead.\<close>

lemma killed_refl:
  "list_all2 (\<lambda>v' v. v' = v \<or> alive v \<and> v' = v\<lparr>alive := False\<rparr>) vs vs"
  by (simp add: list_all2_refl)

lemma killed_trans:
  assumes "list_all2 (\<lambda>v' v. v' = v \<or> alive v \<and> v' = v\<lparr>alive := False\<rparr>) ws vs"
    and "list_all2 (\<lambda>v' v. v' = v \<or> alive v \<and> v' = v\<lparr>alive := False\<rparr>) vs us"
  shows "list_all2 (\<lambda>v' v. v' = v \<or> alive v \<and> v' = v\<lparr>alive := False\<rparr>) ws (us :: Invader list)"
  using assms(1,2)
proof (rule list_all2_trans[rotated])
  fix a b c :: Invader
  assume "a = b \<or> alive b \<and> a = b\<lparr>alive := False\<rparr>" "b = c \<or> alive c \<and> b = c\<lparr>alive := False\<rparr>"
  then show "a = c \<or> alive c \<and> a = c\<lparr>alive := False\<rparr>" by auto
qed

lemma bulletVsInvaders_killed:
  "list_all2 (\<lambda>v' v. v' = v \<or> alive v \<and> v' = v\<lparr>alive := False\<rparr>)
     (invaders (bulletVsInvaders i s)) (invaders s)"
proof (cases "isPlayerBullet (bullets s ! i)")
  case False
  then show ?thesis by (simp add: bulletVsInvaders_def Let_def killed_refl)
next
  case True
  show ?thesis
  proof (cases "firstHit (bullets s ! i) (invaders s)")
    case None
    then show ?thesis by (simp add: bulletVsInvaders_def Let_def killed_refl)
  next
    case (Some k)
    have k: "k < length (invaders s)" "alive (invaders s ! k)"
      using firstHit_Some[OF Some] by (simp_all add: hitsInvader_def)
    have "list_all2 (\<lambda>v' v. v' = v \<or> alive v \<and> v' = v\<lparr>alive := False\<rparr>)
            ((invaders s)[k := (invaders s ! k)\<lparr>alive := False\<rparr>])
            ((invaders s)[k := invaders s ! k])"
      using k(2) by (intro list_all2_update_cong killed_refl) simp
    then show ?thesis
      using True Some by (simp add: bulletVsInvaders_def Let_def)
  qed
qed

lemma invaderCollisions_killed:
  "list_all2 (\<lambda>v' v. v' = v \<or> alive v \<and> v' = v\<lparr>alive := False\<rparr>)
     (invaders (invaderCollisions n s)) (invaders s)"
proof (induction n arbitrary: s)
  case 0
  then show ?case by (simp add: killed_refl)
next
  case (Suc n)
  show ?case
    using killed_trans[OF Suc.IH[of "bulletVsInvaders n s"] bulletVsInvaders_killed[of n s]]
    by simp
qed

lemma updateBullets_killed:
  "list_all2 (\<lambda>v' v. v' = v \<or> alive v \<and> v' = v\<lparr>alive := False\<rparr>)
     (invaders (updateBullets s)) (invaders s)"
  using invaderCollisions_killed[of "length (bullets (pruneBullets s))" "pruneBullets s"]
  by (simp add: updateBullets_def resolveCollisions_def Let_def)

lemma updateBullets_order:
  "updateBullets s =
     (let s0 = pruneBullets s;
          s1 = invaderCollisions (length (bullets s0)) s0;
          s2 = barrierCollisions (length (bullets s1)) s1
      in playerCollisions (length (bullets s2)) s2)"
  by (simp add: updateBullets_def resolveCollisions_def Let_def)

lemma updateBullets_fields:
  "updateBullets s =
     s\<lparr>invaders := invaders (updateBullets s), bullets := bullets (updateBullets s),
       barriers := barriers (updateBullets s), score := score (updateBullets s),
       lives := lives (updateBullets s), gameOver := gameOver (updateBullets s),
       played := played (updateBullets s)\<rparr>"
  by (rule game.equality) simp_all

lemma single_bullet_priority:
  assumes "bullets (pruneBullets s) = [b]"
  shows "updateBullets s =
     (if bulletVsInvaders 0 (pruneBullets s) \<noteq> pruneBullets s
      then bulletVsInvaders 0 (pruneBullets s)
      else if bulletVsBarriers 0 (pruneBullets s) \<noteq> pruneBullets s
      then bulletVsBarriers 0 (pruneBullets s)
      else bulletVsPlayer 0 (pruneBullets s))"
proof -
  let ?t = "pruneBullets s"
  have len: "length (bullets ?t) = Suc 0" "0 < length (bullets ?t)" using assms by simp_all
  have sp: "splice1 0 (bullets ?t) = []" using assms by (simp add: splice1_def)
  have u: "updateBullets s = resolveCollisions ?t" by (simp add: updateBullets_def)
  from bulletVsInvaders_cases[OF len(2)]
  show ?thesis
  proof
    assume same1: "bulletVsInvaders 0 ?t = ?t"
    from bulletVsBarriers_cases[of 0 ?t]
    show ?thesis
    proof
      assume same2: "bulletVsBarriers 0 ?t = ?t"
      show ?thesis
        unfolding u by (simp add: resolveCollisions_def Let_def len same1 same2)
    next
      assume "bullets (bulletVsBarriers 0 ?t) = splice1 0 (bullets ?t)
        \<and> cues BarrierHit (bulletVsBarriers 0 ?t) = cues BarrierHit ?t + 1"
      then have e: "bullets (bulletVsBarriers 0 ?t) = []" by (simp add: sp)
      then have "bulletVsBarriers 0 ?t \<noteq> ?t" using assms by auto
      then show ?thesis
        unfolding u by (simp add: resolveCollisions_def Let_def len same1 e)
    qed
  next
    assume "bullets (bulletVsInvaders 0 ?t) = splice1 0 (bullets ?t)
      \<and> cues Explosion (bulletVsInvaders 0 ?t) = cues Explosion ?t + 1
      \<and> Suc (aliveCount (bulletVsInvaders 0 ?t)) = aliveCount ?t"
    then have e: "bullets (bulletVsInvaders 0 ?t) = []" by (simp add: sp)
    then have "bulletVsInvaders 0 ?t \<noteq> ?t" using assms by auto
    then show ?thesis
      unfolding u by (simp add: resolveCollisions_def Let_def len e)
  qed
qed

text \<open>
  C5. In every frame, collision resolution removes exactly as many bullets as it resolves
  destroying interactions (invader kills, barrier hits, player hits), and the bullets left
  are a subsequence of the bullets that entered it. On the side of the victims: every
  invader is as before or was alive and is now dead, and the invaders that died are the
  kills; the lives lost are the player hits; the health the barriers lost is the number of
  barrier hits (barrier segments have positive health in every reachable state). The three
  rules are tested in the order invaders, barriers, player, each from the last bullet to the
  first, and a single bullet that has matched one rule is not tested against the next.
  Collision resolution changes the invaders, the bullets, the barriers, the score, the lives,
  the game-over flag and the cue log, and no other field. Bullet by bullet: the bullet at index
  \<open>i\<close> either matches no victim of the rule and leaves the game as it is, or it is removed
  together with exactly one interaction, which changes exactly one victim: the first alive
  invader within one column on its row (now dead, its points scored), or the last barrier
  segment on its cell (one health less, removed at 0), or the player (one life less).
  Nothing else changes, so a removed bullet has no second victim.
\<close>

theorem one_hit_per_bullet:
  "length (bullets (updateBullets s)) + hitCues (updateBullets s)
     = length (bullets (pruneBullets s)) + hitCues s
   \<and> subseq (bullets (updateBullets s)) (bullets (pruneBullets s))
   \<and> aliveCount (updateBullets s) + cues Explosion (updateBullets s)
       = aliveCount s + cues Explosion s
   \<and> lives (updateBullets s) + int (cues PlayerHit (updateBullets s))
       = lives s + int (cues PlayerHit s)
   \<and> list_all2 (\<lambda>v' v. v' = v \<or> alive v \<and> v' = v\<lparr>alive := False\<rparr>)
         (invaders (updateBullets s)) (invaders s)
   \<and> ((\<forall>b\<in>set (barriers s). 1 \<le> health b) \<longrightarrow>
         (\<forall>b\<in>set (barriers (updateBullets s)). 1 \<le> health b)
       \<and> barrierHealth (updateBullets s) + int (cues BarrierHit (updateBullets s))
           = barrierHealth s + int (cues BarrierHit s))
   \<and> (reachable s \<longrightarrow> (\<forall>b\<in>set (barriers s). 1 \<le> health b))
   \<and> updateBullets s =
        (let s0 = pruneBullets s;
             s1 = invaderCollisions (length (bullets s0)) s0;
             s2 = barrierCollisions (length (bullets s1)) s1
         in playerCollisions (length (bullets s2)) s2)
   \<and> invaderCollisions (Suc i) s = invaderCollisions i (bulletVsInvaders i s)
   \<and> barrierCollisions (Suc i) s = barrierCollisions i (bulletVsBarriers i s)
   \<and> playerCollisions (Suc i) s = playerCollisions i (bulletVsPlayer i s)
   \<and> updateBullets s =
        s\<lparr>invaders := invaders (updateBullets s), bullets := bullets (updateBullets s),
          barriers := barriers (updateBullets s), score := score (updateBullets s),
          lives := lives (updateBullets s), gameOver := gameOver (updateBullets s),
          played := played (updateBullets s)\<rparr>
   \<and> (bullets (pruneBullets s) = [b] \<longrightarrow>
        updateBullets s =
          (if bulletVsInvaders 0 (pruneBullets s) \<noteq> pruneBullets s
           then bulletVsInvaders 0 (pruneBullets s)
           else if bulletVsBarriers 0 (pruneBullets s) \<noteq> pruneBullets s
           then bulletVsBarriers 0 (pruneBullets s)
           else bulletVsPlayer 0 (pruneBullets s)))
   \<and> ((bulletVsInvaders i s = s
        \<and> (\<not> isPlayerBullet (bullets s ! i)
           \<or> (\<forall>v\<in>set (invaders s).
                \<not> (alive v \<and> \<bar>x (bullets s ! i) - x v\<bar> \<le> 1 \<and> y (bullets s ! i) = y v))))
       \<or> (\<exists>k<length (invaders s).
             isPlayerBullet (bullets s ! i)
           \<and> alive (invaders s ! k)
           \<and> \<bar>x (bullets s ! i) - x (invaders s ! k)\<bar> \<le> 1
           \<and> y (bullets s ! i) = y (invaders s ! k)
           \<and> (\<forall>k'<k. \<not> (alive (invaders s ! k')
                          \<and> \<bar>x (bullets s ! i) - x (invaders s ! k')\<bar> \<le> 1
                          \<and> y (bullets s ! i) = y (invaders s ! k')))
           \<and> bulletVsInvaders i s =
               s\<lparr>invaders := (invaders s)[k := (invaders s ! k)\<lparr>alive := False\<rparr>],
                 bullets := splice1 i (bullets s),
                 score := score s + (type (invaders s ! k) + 1) * 10,
                 played := played s @ [Explosion]\<rparr>))
   \<and> ((bulletVsBarriers i s = s
        \<and> (\<forall>j<length (barriers s).
              \<not> (x (bullets s ! i) = x (barriers s ! j)
                 \<and> y (bullets s ! i) = y (barriers s ! j))))
       \<or> (\<exists>j<length (barriers s).
             x (bullets s ! i) = x (barriers s ! j) \<and> y (bullets s ! i) = y (barriers s ! j)
           \<and> (\<forall>j'. j < j' \<and> j' < length (barriers s) \<longrightarrow>
                 \<not> (x (bullets s ! i) = x (barriers s ! j')
                    \<and> y (bullets s ! i) = y (barriers s ! j')))
           \<and> bulletVsBarriers i s =
               s\<lparr>barriers :=
                   (if health (barriers s ! j) - 1 \<le> 0 then splice1 j (barriers s)
                    else (barriers s)
                           [j := (barriers s ! j)\<lparr>health := health (barriers s ! j) - 1\<rparr>]),
                 bullets := splice1 i (bullets s),
                 played := played s @ [BarrierHit]\<rparr>))
   \<and> ((bulletVsPlayer i s = s
        \<and> \<not> (\<not> isPlayerBullet (bullets s ! i)
             \<and> \<bar>x (bullets s ! i) - x (player s)\<bar> \<le> 1
             \<and> y (bullets s ! i) = y (player s)))
       \<or> (\<not> isPlayerBullet (bullets s ! i)
          \<and> \<bar>x (bullets s ! i) - x (player s)\<bar> \<le> 1 \<and> y (bullets s ! i) = y (player s)
          \<and> bulletVsPlayer i s =
              s\<lparr>bullets := splice1 i (bullets s),
                lives := lives s - 1,
                gameOver := (gameOver s \<or> lives s - 1 \<le> 0),
                played := played s @ (if lives s - 1 \<le> 0 then [PlayerHit, GameOverSound]
                                      else [PlayerHit])\<rparr>))
   \<and> (i < length (bullets s) \<longrightarrow>
        (bulletVsInvaders i s = s
         \<or> bullets (bulletVsInvaders i s) = splice1 i (bullets s)
           \<and> hitCues (bulletVsInvaders i s) = hitCues s + 1)
      \<and> (bulletVsBarriers i s = s
         \<or> bullets (bulletVsBarriers i s) = splice1 i (bullets s)
           \<and> hitCues (bulletVsBarriers i s) = hitCues s + 1)
      \<and> (bulletVsPlayer i s = s
         \<or> bullets (bulletVsPlayer i s) = splice1 i (bullets s)
           \<and> hitCues (bulletVsPlayer i s) = hitCues s + 1))"
proof -
  have frame: "length (bullets (updateBullets s)) + hitCues (updateBullets s)
     = length (bullets (pruneBullets s)) + hitCues s
   \<and> subseq (bullets (updateBullets s)) (bullets (pruneBullets s))
   \<and> aliveCount (updateBullets s) + cues Explosion (updateBullets s)
       = aliveCount s + cues Explosion s
   \<and> lives (updateBullets s) + int (cues PlayerHit (updateBullets s))
       = lives s + int (cues PlayerHit s)"
    using resolveCollisions_count[of "pruneBullets s"]
    by (simp add: updateBullets_def hitCues_def)
  have health: "(\<forall>b\<in>set (barriers s). 1 \<le> health b) \<longrightarrow>
         (\<forall>b\<in>set (barriers (updateBullets s)). 1 \<le> health b)
       \<and> barrierHealth (updateBullets s) + int (cues BarrierHit (updateBullets s))
           = barrierHealth s + int (cues BarrierHit s)"
    using updateBullets_health[of s] by (simp add: barriersOK_def)
  have bodies: "(bulletVsInvaders i s = s
         \<or> bullets (bulletVsInvaders i s) = splice1 i (bullets s)
           \<and> hitCues (bulletVsInvaders i s) = hitCues s + 1)
      \<and> (bulletVsBarriers i s = s
         \<or> bullets (bulletVsBarriers i s) = splice1 i (bullets s)
           \<and> hitCues (bulletVsBarriers i s) = hitCues s + 1)
      \<and> (bulletVsPlayer i s = s
         \<or> bullets (bulletVsPlayer i s) = splice1 i (bullets s)
           \<and> hitCues (bulletVsPlayer i s) = hitCues s + 1)" if "i < length (bullets s)"
    using bulletVsInvaders_cases[OF that] bulletVsBarriers_cases[of i s]
      bulletVsPlayer_cases[of i s] hitCues_bodies[of i s]
    by auto
  show ?thesis
    apply (intro conjI)
    apply (rule frame[THEN conjunct1])
    apply (rule frame[THEN conjunct2, THEN conjunct1])
    apply (rule frame[THEN conjunct2, THEN conjunct2, THEN conjunct1])
    apply (rule frame[THEN conjunct2, THEN conjunct2, THEN conjunct2])
    apply (rule updateBullets_killed)
    apply (rule health)
    apply (rule impI, erule reachable_barriersOK)
    apply (rule updateBullets_order)
    apply (rule invaderCollisions.simps)
    apply (rule barrierCollisions.simps)
    apply (rule playerCollisions.simps)
    apply (rule updateBullets_fields)
    apply (rule impI, erule single_bullet_priority)
    apply (rule bulletVsInvaders_spec)
    apply (rule bulletVsBarriers_spec)
    apply (rule bulletVsPlayer_spec)
    apply (rule impI, erule bodies)
    done
qed

lemma crossfire_eval:
  "(let g = updateBullets crossfire in
      (bullets g, length (filter alive (invaders g)), barriers g, lives g, score g))
   = ([], 0, [\<lparr>x = 12, y = 30, health = 3\<rparr>], 1, 30)"
  unfolding crossfire_def startedGame_def by code_simp

lemma crossfire_before:
  "length (bullets (pruneBullets crossfire)) = 3" "hitCues crossfire = 0"
  "aliveCount crossfire = 1" "cues Explosion crossfire = 0" "cues PlayerHit crossfire = 0"
  "lives crossfire = 3" "barriers crossfire = [\<lparr>x = 12, y = 30, health = 3\<rparr>]"
  by (simp_all add: crossfire_def pruneBullets_def advanceBullet_def onScreen_def
      GRID_HEIGHT_def hitCues_def cues_def aliveCount_def startedGame_def shoot_def
      startGame_def)

lemma straddle_facts:
  "bullets (pruneBullets straddle) = [\<lparr>x = 12, y = 30, isPlayerBullet = True\<rparr>]"
  "barriers straddle = [\<lparr>x = 12, y = 30, health = 3\<rparr>]"
  "invaders straddle = [\<lparr>x = 12, y = 30, type = 2, alive = True\<rparr>]"
  by (simp_all add: straddle_def pruneBullets_def advanceBullet_def onScreen_def GRID_HEIGHT_def)

lemma straddle_hit:
  "bullets (bulletVsInvaders 0 (pruneBullets straddle)) = []"
  "aliveCount (bulletVsInvaders 0 (pruneBullets straddle)) = 0"
  by (simp_all add: bulletVsInvaders_def Let_def straddle_facts hitsInvader_def splice1_def
      aliveCount_def)

text \<open>
  C5, witness: the single player bullet kills the invader and leaves the barrier segment
  under it untouched. With the two enemy bullets added, they cost one life each: three
  bullets, three interactions, no barrier hit.
\<close>

theorem one_hit_per_bullet_witness:
  "0 < length (bullets crossfire)
   \<and> length (bullets (pruneBullets crossfire)) = 3
   \<and> bullets (updateBullets crossfire) = []
   \<and> hitCues (updateBullets crossfire) = 3
   \<and> cues Explosion (updateBullets crossfire) = 1
   \<and> cues PlayerHit (updateBullets crossfire) = 2
   \<and> cues BarrierHit (updateBullets crossfire) = 0
   \<and> barriers (updateBullets crossfire) = barriers crossfire
   \<and> bullets (pruneBullets straddle) = [\<lparr>x = 12, y = 30, isPlayerBullet = True\<rparr>]
   \<and> updateBullets straddle = bulletVsInvaders 0 (pruneBullets straddle)
   \<and> aliveCount (updateBullets straddle) = 0
   \<and> barriers (updateBullets straddle) = barriers straddle"
proof -
  have e: "bullets (updateBullets crossfire) = []" "lives (updateBullets crossfire) = 1"
    "barriers (updateBullets crossfire) = [\<lparr>x = 12, y = 30, health = 3\<rparr>]"
    "aliveCount (updateBullets crossfire) = 0"
    using crossfire_eval by (simp_all add: Let_def aliveCount_def)
  have n: "0 < length (bullets crossfire)" by (simp add: crossfire_def)
  have ok: "\<forall>b\<in>set (barriers crossfire). 1 \<le> health b"
    by (simp add: crossfire_before)
  have bh: "barrierHealth crossfire = 3" "barrierHealth (updateBullets crossfire) = 3"
    "cues BarrierHit crossfire = 0"
    by (simp_all add: barrierHealth_def e crossfire_before)
       (simp add: crossfire_def cues_def startedGame_def shoot_def startGame_def)
  note c = one_hit_per_bullet[where s = crossfire and i = 0 and b = undefined]
  from c have c1: "length (bullets (updateBullets crossfire)) + hitCues (updateBullets crossfire)
     = length (bullets (pruneBullets crossfire)) + hitCues crossfire"
    by (elim conjE)
  from c have c3: "aliveCount (updateBullets crossfire) + cues Explosion (updateBullets crossfire)
       = aliveCount crossfire + cues Explosion crossfire"
    by (elim conjE)
  from c have c4: "lives (updateBullets crossfire) + int (cues PlayerHit (updateBullets crossfire))
       = lives crossfire + int (cues PlayerHit crossfire)"
    by (elim conjE)
  from c have c6: "(\<forall>b\<in>set (barriers crossfire). 1 \<le> health b) \<longrightarrow>
         (\<forall>b\<in>set (barriers (updateBullets crossfire)). 1 \<le> health b)
       \<and> barrierHealth (updateBullets crossfire) + int (cues BarrierHit (updateBullets crossfire))
           = barrierHealth crossfire + int (cues BarrierHit crossfire)"
    by (elim conjE)
  from c6 ok bh have nb: "cues BarrierHit (updateBullets crossfire) = 0" by simp
  have cross: "0 < length (bullets crossfire)
   \<and> length (bullets (pruneBullets crossfire)) = 3
   \<and> bullets (updateBullets crossfire) = []
   \<and> hitCues (updateBullets crossfire) = 3
   \<and> cues Explosion (updateBullets crossfire) = 1
   \<and> cues PlayerHit (updateBullets crossfire) = 2
   \<and> barriers (updateBullets crossfire) = barriers crossfire"
    using c1 c3 c4 e n crossfire_before by simp
  have ne: "bulletVsInvaders 0 (pruneBullets straddle) \<noteq> pruneBullets straddle"
    using straddle_hit(1) straddle_facts(1) by auto
  from one_hit_per_bullet[where s = straddle and i = 0
      and b = "\<lparr>x = 12, y = 30, isPlayerBullet = True\<rparr>"]
  have "bullets (pruneBullets straddle) = [\<lparr>x = 12, y = 30, isPlayerBullet = True\<rparr>] \<longrightarrow>
        updateBullets straddle =
          (if bulletVsInvaders 0 (pruneBullets straddle) \<noteq> pruneBullets straddle
           then bulletVsInvaders 0 (pruneBullets straddle)
           else if bulletVsBarriers 0 (pruneBullets straddle) \<noteq> pruneBullets straddle
           then bulletVsBarriers 0 (pruneBullets straddle)
           else bulletVsPlayer 0 (pruneBullets straddle))"
    by (elim conjE)
  then have u: "updateBullets straddle = bulletVsInvaders 0 (pruneBullets straddle)"
    using ne straddle_facts(1) by simp
  have "barriers (updateBullets straddle) = barriers straddle"
    by (simp add: u)
  then show ?thesis
    using cross nb u straddle_facts(1) straddle_hit(2) by simp
qed

section \<open>C6: the fire cooldown\<close>



lemma keyboard_shots [simp]:
  "cues c (handleKeyboardMovement inp s) = cues c s"
  "shootCooldown (handleKeyboardMovement inp s) = shootCooldown s"
  by (simp_all add: handleKeyboardMovement_def Let_def)













section \<open>C7: score and high score\<close>

lemma typesOK_update: "typesOK vs \<Longrightarrow> 0 \<le> type v \<Longrightarrow> typesOK (vs[k := v])"
  unfolding typesOK_def by (metis insertE set_update_subset_insert subsetD)

lemma typesOK_fresh: "typesOK freshInvaders"
  by (simp add: typesOK_def freshInvaders_def invaderType_def)

lemma bulletVsInvaders_score:
  assumes "typesOK (invaders s)"
  shows "typesOK (invaders (bulletVsInvaders i s)) \<and> score s \<le> score (bulletVsInvaders i s)"
proof (cases "firstHit (bullets s ! i) (invaders s)")
  case None
  then show ?thesis using assms by (simp add: bulletVsInvaders_def Let_def)
next
  case (Some k)
  then have k: "k < length (invaders s)" by (simp add: firstHit_Some)
  then have t: "0 \<le> type (invaders s ! k)" using assms by (simp add: typesOK_def)
  then show ?thesis
    using assms Some by (simp add: bulletVsInvaders_def Let_def typesOK_update)
qed

lemma invaderCollisions_score:
  "typesOK (invaders s) \<Longrightarrow>
   typesOK (invaders (invaderCollisions n s)) \<and> score s \<le> score (invaderCollisions n s)"
proof (induction n arbitrary: s)
  case 0
  then show ?case by simp
next
  case (Suc n)
  from bulletVsInvaders_score[OF Suc.prems, of n] Suc.IH[of "bulletVsInvaders n s"]
  show ?case by auto
qed

lemma updateBullets_score:
  "typesOK (invaders s) \<Longrightarrow>
   typesOK (invaders (updateBullets s)) \<and> score s \<le> score (updateBullets s)"
  using invaderCollisions_score[of "pruneBullets s" "length (bullets (pruneBullets s))"]
  by (simp add: updateBullets_def resolveCollisions_def Let_def)

lemma typesOK_moveInvaders:
  "typesOK (invaders s) \<Longrightarrow> typesOK (invaders (moveInvaders dt s))"
  by (auto simp add: moveInvaders_def Let_def formationStep_invaders typesOK_def
      dropInvader_def slideInvader_def)

lemma advance_score:
  assumes "typesOK (invaders s)"
  shows "typesOK (invaders (advance inp s)) \<and> score s \<le> score (advance inp s)"
proof -
  let ?pre = "\<lambda>s4. typesOK (invaders s4) \<and> score s4 = score s"
  have "\<And>s4. ?pre s4 \<Longrightarrow>
          typesOK (invaders (updateBullets s4)) \<and> score s \<le> score (updateBullets s4)"
    using updateBullets_score by fastforce
  then show ?thesis
    using assms by (simp add: advance_def Let_def typesOK_moveInvaders)
qed

lemma simulate_score:
  assumes "typesOK (invaders s)"
  shows "typesOK (invaders (simulate inp s))" "score s \<le> score (simulate inp s)"
    "highScore (simulate inp s) = max (highScore s) (score (simulate inp s))"
  using advance_score[OF assms, of inp]
  by (auto simp add: simulate_def Let_def checkLevelComplete_def typesOK_fresh
      spawnInvaders_def spawnBarriers_def)

lemma highScore_simulate: "highScore s \<le> highScore (simulate inp s)"
  by (simp add: simulate_def Let_def)

lemma input_score [simp]:
  "score (handleKeyboardMovement inp s) = score s"
  "highScore (handleKeyboardMovement inp s) = highScore s"
  "invaders (handleKeyboardMovement inp s) = invaders s"
  "gameOver (handleKeyboardMovement inp s) = gameOver s"
  "highScore (handleGamepadInput inp s) = highScore s"
  "highScore (restart s) = highScore s"
  by (simp_all add: handleKeyboardMovement_def handleGamepadInput_def Let_def restart_def)

lemma restart_score:
  "scoreConsistent s \<Longrightarrow> scoreConsistent (restart s)"
  "\<not> gameOver s \<Longrightarrow> restart s = s"
  by (simp_all add: restart_def scoreConsistent_def initGame_def spawnBarriers_def
      spawnInvaders_def typesOK_fresh)

lemma gamepad_score:
  "scoreConsistent s \<Longrightarrow> scoreConsistent (handleGamepadInput inp s)"
  "\<not> gameOver s \<Longrightarrow> score (handleGamepadInput inp s) = score s"
  by (simp_all add: handleGamepadInput_def Let_def restart_score
      scoreConsistent_def[of "startGame _"] scoreConsistent_def[of "shoot _"]
      scoreConsistent_def[of "togglePause _"] scoreConsistent_def[of s])

lemma update_score:
  assumes "scoreConsistent s"
  shows "scoreConsistent (update inp s)"
    "highScore (update inp s) = max (highScore s) (score (update inp s))"
    "\<not> gameOver s \<Longrightarrow> score s \<le> score (update inp s)"
proof -
  let ?s1 = "handleKeyboardMovement inp (handleGamepadInput inp s)"
  have c: "scoreConsistent ?s1"
    using gamepad_score(1)[OF assms, of inp] by (simp add: scoreConsistent_def)
  then have t: "typesOK (invaders ?s1)" by (simp add: scoreConsistent_def)
  have h: "highScore ?s1 = highScore s" by simp
  note sim = simulate_score[OF t, of inp]
  show "scoreConsistent (update inp s)"
    using c sim by (auto simp add: update_def Let_def scoreConsistent_def)
  show "highScore (update inp s) = max (highScore s) (score (update inp s))"
    using c sim h by (auto simp add: update_def Let_def scoreConsistent_def)
  show "score s \<le> score (update inp s)" if "\<not> gameOver s"
    using that sim(2) gamepad_score(2)[OF that, of inp]
    by (auto simp add: update_def Let_def)
qed

lemma step_score:
  assumes "scoreConsistent s"
  shows "scoreConsistent (step e s)"
    "highScore (step e s) = max (highScore s) (score (step e s))"
    "\<not> gameOver s \<Longrightarrow> score s \<le> score (step e s)"
  using assms update_score[OF assms] restart_score
  by (cases e; auto simp add: scoreConsistent_def[of "shoot _"] scoreConsistent_def[of s]
      scoreConsistent_def[of "togglePause _"] scoreConsistent_def[of "restart _"])+

lemma highScore_update: "highScore s \<le> highScore (update inp s)"
  using highScore_simulate[of "handleKeyboardMovement inp (handleGamepadInput inp s)" inp]
  by (simp add: update_def Let_def)

lemma highScore_step: "highScore s \<le> highScore (step e s)"
  by (cases e) (simp_all add: highScore_update)

lemma scoreConsistent_newGame: "scoreConsistent newGame"
  by (simp add: scoreConsistent_def typesOK_fresh)

lemma reachable_scoreConsistent: "reachable s \<Longrightarrow> scoreConsistent s"
  by (induction rule: reachable.induct) (simp_all add: scoreConsistent_newGame step_score)

lemma scoresSeen_first: "score s \<in> set (scoresSeen evs s)"
  by (cases evs) simp_all

lemma highScore_run:
  "scoreConsistent s \<Longrightarrow>
   highScore (run evs s) = max (highScore s) (Max (set (scoresSeen evs s)))"
proof (induction evs arbitrary: s)
  case Nil
  then show ?case by (simp add: scoreConsistent_def)
next
  case (Cons e es)
  let ?t = "step e s"
  let ?A = "set (scoresSeen es ?t)"
  have fin: "finite ?A" "?A \<noteq> {}" using scoresSeen_first[of ?t es] by auto
  have "score ?t \<le> Max ?A" using scoresSeen_first[of ?t es] by simp
  moreover have "highScore ?t = max (highScore s) (score ?t)"
    using step_score(2)[OF Cons.prems] .
  moreover have "highScore (run es ?t) = max (highScore ?t) (Max ?A)"
    using Cons.IH[OF step_score(1)[OF Cons.prems]] .
  moreover have "score s \<le> highScore s" using Cons.prems by (simp add: scoreConsistent_def)
  moreover have "Max (set (scoresSeen (e # es) s)) = max (score s) (Max ?A)"
    using fin by simp
  ultimately show ?case by simp
qed

lemma highScore_is_max_seen:
  "highScore (run evs newGame) = Max (set (scoresSeen evs newGame))"
proof -
  have "(0::int) \<le> Max (set (scoresSeen evs newGame))"
    using scoresSeen_first[of newGame evs] Max_ge[of "set (scoresSeen evs newGame)" 0]
    by simp
  then show ?thesis
    using highScore_run[OF scoreConsistent_newGame, of evs] by simp
qed

text \<open>
  C7. After every sequence of key events and frames from the initial state, the high score
  is the maximum of the scores of all states passed through. No event ever decreases the
  high score, and \<open>initGame\<close> (the restart) resets score, lives and level and keeps the high
  score. In a reachable state that is not game over, no event decreases the score: it only
  goes back to 0 by a restart, which needs game over.
\<close>

theorem high_score_is_running_max:
  "highScore (run evs newGame) = Max (set (scoresSeen evs newGame))
   \<and> highScore s \<le> highScore (step e s)
   \<and> highScore (initGame s) = highScore s
   \<and> score (initGame s) = 0 \<and> lives (initGame s) = 3 \<and> level (initGame s) = 1
   \<and> (reachable s \<and> \<not> gameOver s \<longrightarrow> score s \<le> score (step e s))"
  using highScore_is_max_seen[of evs] highScore_step[of s e]
    step_score(3)[OF reachable_scoreConsistent, of s e]
  by (simp add: initGame_def)

lemma firstKill_eval:
  "(let g = run firstKill newGame in (score g, highScore g)) = (10, 10)"
  unfolding firstKill_def by code_simp

text \<open>
  C7, witness: the first kill brings score and high score to 10, the maximum seen.
\<close>

theorem high_score_is_running_max_witness:
  "reachable startedGame \<and> \<not> gameOver startedGame
   \<and> score startedGame \<le> score (step KeySpace startedGame)
   \<and> highScore startedGame \<le> highScore (step KeySpace startedGame)
   \<and> score (run firstKill newGame) = 10
   \<and> highScore (run firstKill newGame) = 10
   \<and> Max (set (scoresSeen firstKill newGame)) = 10"
proof -
  have r: "reachable startedGame"
    unfolding startedGame_def by (rule reachable_run_newGame)
  have k: "score (run firstKill newGame) = 10" "highScore (run firstKill newGame) = 10"
    using firstKill_eval by (simp_all add: Let_def)
  show ?thesis
    using high_score_is_running_max[of firstKill startedGame KeySpace] r k
    by (simp add: startedGame_facts)
qed

section \<open>C8 and C10: the level-complete transition\<close>

lemma freshInvaders_length: "length freshInvaders = 55"
  by (simp add: freshInvaders_def upt_rec)

lemma freshInvaders_alive: "list_all alive freshInvaders"
  by (simp add: freshInvaders_def upt_rec)

lemma freshBarriers_length: "length freshBarriers = 72"
  by (simp add: freshBarriers_def upt_rec)

lemma freshBarriers_health: "list_all (\<lambda>b. health b = 3) freshBarriers"
  by (simp add: freshBarriers_def upt_rec)

lemma freshInvaders_grid:
  "map (\<lambda>v. (x v, y v)) freshInvaders =
     [(10 + 4 * int col, 5 + 3 * int row). row \<leftarrow> [0..<5], col \<leftarrow> [0..<11]]"
  by (simp add: freshInvaders_def upt_rec)

lemma checkLevelComplete_cleared:
  assumes "length (filter alive (invaders s)) = 0"
  shows "checkLevelComplete s =
          s\<lparr>level := level s + 1, invaders := freshInvaders, barriers := freshBarriers,
            bullets := [], invaderMoveInterval := max 300 (800 - of_int (level s + 1) * 100),
            invaderDirection := 1, played := played s @ [LevelComplete]\<rparr>"
  using assms
  by (simp add: checkLevelComplete_def spawnInvaders_def spawnBarriers_def play_def)

lemma checkLevelComplete_not_cleared:
  "length (filter alive (invaders s)) \<noteq> 0 \<Longrightarrow> checkLevelComplete s = s"
  by (simp add: checkLevelComplete_def)

lemma simulate_cleared:
  assumes "length (filter alive (invaders (advance inp t))) = 0"
  shows "level (simulate inp t) = level t + 1"
    "invaders (simulate inp t) = freshInvaders"
    "barriers (simulate inp t) = freshBarriers"
    "bullets (simulate inp t) = []"
    "invaderMoveInterval (simulate inp t) = max 300 (800 - of_int (level t + 1) * 100)"
    "started (simulate inp t) = started t" "paused (simulate inp t) = paused t"
    "gameOver (simulate inp t) = gameOver (advance inp t)"
  by (simp_all add: simulate_def Let_def checkLevelComplete_cleared[OF assms])

text \<open>
  C8 (amended). When \<open>checkLevelComplete\<close> finds no alive invader, the level increments by
  one, the invaders are a fresh wave of 55 (5 rows of 11 columns, all alive), the barriers
  are the 72 fresh segments at health 3, the formation interval is
  \<open>max 300 (800 - level * 100)\<close> for the new level, and the bullet list is empty; the
  transition leaves the phase flags as they are. So a frame of a running game whose bullets
  kill the last alive invader ends one level higher, with the fresh wave, the fresh
  barriers, the interval of the new level and no bullets; \<open>started\<close> and \<open>paused\<close> are as
  before the frame, and \<open>gameOver\<close> is as the collision resolution of the frame left it.
\<close>

theorem level_complete_effect:
  assumes "length (filter alive (invaders s)) = 0"
  shows "level (checkLevelComplete s) = level s + 1
       \<and> invaders (checkLevelComplete s) = freshInvaders
       \<and> length (invaders (checkLevelComplete s)) = 55
       \<and> list_all alive (invaders (checkLevelComplete s))
       \<and> map (\<lambda>v. (x v, y v)) (invaders (checkLevelComplete s)) =
           [(10 + 4 * int col, 5 + 3 * int row). row \<leftarrow> [0..<5], col \<leftarrow> [0..<11]]
       \<and> barriers (checkLevelComplete s) = freshBarriers
       \<and> length (barriers (checkLevelComplete s)) = 72
       \<and> list_all (\<lambda>b. health b = 3) (barriers (checkLevelComplete s))
       \<and> invaderMoveInterval (checkLevelComplete s) =
           max 300 (800 - of_int (level (checkLevelComplete s)) * 100)
       \<and> bullets (checkLevelComplete s) = []
       \<and> started (checkLevelComplete s) = started s
       \<and> paused (checkLevelComplete s) = paused s
       \<and> gameOver (checkLevelComplete s) = gameOver s
       \<and> (length (filter alive (invaders (advance inp t))) = 0 \<longrightarrow>
            level (simulate inp t) = level t + 1
          \<and> invaders (simulate inp t) = freshInvaders
          \<and> barriers (simulate inp t) = freshBarriers
          \<and> bullets (simulate inp t) = []
          \<and> invaderMoveInterval (simulate inp t) = max 300 (800 - of_int (level t + 1) * 100)
          \<and> started (simulate inp t) = started t
          \<and> paused (simulate inp t) = paused t
          \<and> gameOver (simulate inp t) = gameOver (advance inp t))"
  using simulate_cleared[of inp t]
  by (simp add: checkLevelComplete_cleared[OF assms]
      freshInvaders_length freshInvaders_alive freshBarriers_length freshBarriers_health
      freshInvaders_grid)

lemma clearedGame_no_alive: "length (filter alive (invaders clearedGame)) = 0"
  by (simp add: clearedGame_def filter_map comp_def)

lemma lastInvaderGame_eval:
  "(let g = advance (idleFrame 16 0) lastInvaderGame in
      (length (filter alive (invaders g)), bullets g, score g, gameOver g))
   = (0, [], 10, False)"
  unfolding lastInvaderGame_def startedGame_def by code_simp

text \<open>
  C8, witness: the cleared game goes to level 2 with interval 600, and so does the game
  whose last invader is shot in the frame.
\<close>

theorem level_complete_effect_witness:
  "length (filter alive (invaders clearedGame)) = 0
   \<and> level (checkLevelComplete clearedGame) = 2
   \<and> length (invaders (checkLevelComplete clearedGame)) = 55
   \<and> list_all alive (invaders (checkLevelComplete clearedGame))
   \<and> length (barriers (checkLevelComplete clearedGame)) = 72
   \<and> list_all (\<lambda>b. health b = 3) (barriers (checkLevelComplete clearedGame))
   \<and> invaderMoveInterval (checkLevelComplete clearedGame) = 600
   \<and> bullets (checkLevelComplete clearedGame) = []
   \<and> started (checkLevelComplete clearedGame) \<and> \<not> paused (checkLevelComplete clearedGame)
   \<and> \<not> gameOver (checkLevelComplete clearedGame)
   \<and> length (filter alive (invaders (advance (idleFrame 16 0) lastInvaderGame))) = 0
   \<and> level (simulate (idleFrame 16 0) lastInvaderGame) = 2
   \<and> invaders (simulate (idleFrame 16 0) lastInvaderGame) = freshInvaders
   \<and> bullets (simulate (idleFrame 16 0) lastInvaderGame) = []
   \<and> invaderMoveInterval (simulate (idleFrame 16 0) lastInvaderGame) = 600
   \<and> \<not> gameOver (simulate (idleFrame 16 0) lastInvaderGame)"
proof -
  have f: "level clearedGame = 1" "started clearedGame" "\<not> paused clearedGame"
    "\<not> gameOver clearedGame"
    by (simp_all add: clearedGame_def shoot_def startGame_def)
  have l: "length (filter alive (invaders (advance (idleFrame 16 0) lastInvaderGame))) = 0"
    "\<not> gameOver (advance (idleFrame 16 0) lastInvaderGame)"
    using lastInvaderGame_eval by (simp_all add: Let_def)
  have g: "level lastInvaderGame = 1"
    by (simp add: lastInvaderGame_def startedGame_def shoot_def startGame_def)
  show ?thesis
    using level_complete_effect[OF clearedGame_no_alive, of "idleFrame 16 0" lastInvaderGame]
      clearedGame_no_alive f l g
    by (simp add: freshInvaders_length freshInvaders_alive freshBarriers_length
        freshBarriers_health)
qed

lemma lastStand_phase: "started lastStand" "\<not> paused lastStand" "\<not> gameOver lastStand"
  "level lastStand = 1" "lives lastStand = 1"
  by (simp_all add: lastStand_def startedGame_def shoot_def startGame_def)

lemma lastStand_eval:
  "(let g = update (idleFrame 16 0) lastStand in
      (level g, gameOver g, lives g, length (filter alive (invaders g)), bullets g, score g))
   = (2, True, 0, 55, [], 990)"
  unfolding lastStand_def startedGame_def by code_simp

text \<open>
  C8 as stated fails: in a running game, a frame that kills the last alive invader while
  an enemy bullet takes the last life ends one level higher, with the fresh wave, and in
  game over: the phase has changed in the frame of the level-complete transition.
\<close>

theorem level_complete_in_game_over_frame_counterexample:
  "started lastStand \<and> \<not> paused lastStand \<and> \<not> gameOver lastStand
   \<and> level (update (idleFrame 16 0) lastStand) = level lastStand + 1
   \<and> length (filter alive (invaders (update (idleFrame 16 0) lastStand))) = 55
   \<and> gameOver (update (idleFrame 16 0) lastStand)"
  using lastStand_eval by (simp add: Let_def lastStand_phase)

text \<open>
  C10. The level-complete transition leaves score, lives, high score and the player as
  they are: the game after it is the game before it with only the level, the invaders,
  the barriers, the bullets, the formation interval and direction assigned (and the
  level-complete cue sent to the synthesiser).
\<close>

theorem level_complete_frame:
  assumes "length (filter alive (invaders s)) = 0"
  shows "score (checkLevelComplete s) = score s
       \<and> lives (checkLevelComplete s) = lives s
       \<and> highScore (checkLevelComplete s) = highScore s
       \<and> player (checkLevelComplete s) = player s
       \<and> (\<exists>l vs bs bl i d p.
            checkLevelComplete s =
              s\<lparr>level := l, invaders := vs, barriers := bs, bullets := bl,
                invaderMoveInterval := i, invaderDirection := d, played := p\<rparr>)"
proof -
  have "checkLevelComplete s =
          s\<lparr>level := level s + 1, invaders := freshInvaders, barriers := freshBarriers,
            bullets := [], invaderMoveInterval := max 300 (800 - of_int (level s + 1) * 100),
            invaderDirection := 1, played := played s @ [LevelComplete]\<rparr>"
    using assms
    by (simp add: checkLevelComplete_def spawnInvaders_def spawnBarriers_def play_def)
  then have "\<exists>l vs bs bl i d p.
            checkLevelComplete s =
              s\<lparr>level := l, invaders := vs, barriers := bs, bullets := bl,
                invaderMoveInterval := i, invaderDirection := d, played := p\<rparr>"
    by (intro exI)
  then show ?thesis by simp
qed

text \<open>C10, witness: the cleared game keeps its score, lives, high score and player.\<close>

theorem level_complete_frame_witness:
  "length (filter alive (invaders clearedGame)) = 0
   \<and> score (checkLevelComplete clearedGame) = 990
   \<and> lives (checkLevelComplete clearedGame) = 2
   \<and> highScore (checkLevelComplete clearedGame) = 990
   \<and> player (checkLevelComplete clearedGame) = \<lparr>x = 30, y = 37\<rparr>"
proof -
  have f: "score clearedGame = 990" "lives clearedGame = 2" "highScore clearedGame = 990"
    "player clearedGame = \<lparr>x = 30, y = 37\<rparr>"
    by (simp_all add: clearedGame_def shoot_def startGame_def)
  show ?thesis
    using level_complete_frame[OF clearedGame_no_alive] clearedGame_no_alive f
    by simp
qed

section \<open>C9: the phase flags\<close>

lemma phaseConsistent_cong:
  "started t = started s \<Longrightarrow> paused t = paused s \<Longrightarrow> gameOver t = gameOver s
   \<Longrightarrow> phaseConsistent t = phaseConsistent s"
  by (simp add: phaseConsistent_def)

lemma phaseConsistent_startGame: "phaseConsistent s \<Longrightarrow> phaseConsistent (startGame s)"
  by (auto simp add: phaseConsistent_def startGame_def)

lemma phaseConsistent_togglePause: "phaseConsistent s \<Longrightarrow> phaseConsistent (togglePause s)"
  by (auto simp add: phaseConsistent_def togglePause_def)

lemma phaseConsistent_shoot: "phaseConsistent s \<Longrightarrow> phaseConsistent (shoot s)"
  by (auto simp add: phaseConsistent_def shoot_def startGame_def)

lemma phaseConsistent_initGame: "phaseConsistent (initGame s)"
  by (simp add: phaseConsistent_def initGame_def)

lemma phaseConsistent_restart: "phaseConsistent s \<Longrightarrow> phaseConsistent (restart s)"
  by (simp add: restart_def phaseConsistent_initGame)

lemma phaseConsistent_moveLeft: "phaseConsistent s \<Longrightarrow> phaseConsistent (moveLeft s)"
  by (simp add: phaseConsistent_def)

lemma phaseConsistent_moveRight: "phaseConsistent s \<Longrightarrow> phaseConsistent (moveRight s)"
  by (simp add: phaseConsistent_def)

lemma phaseConsistent_gamepad:
  "phaseConsistent s \<Longrightarrow> phaseConsistent (handleGamepadInput inp s)"
  by (simp add: handleGamepadInput_def Let_def phaseConsistent_restart
      phaseConsistent_togglePause phaseConsistent_shoot phaseConsistent_startGame
      phaseConsistent_moveLeft phaseConsistent_moveRight)

lemma phaseConsistent_keyboard:
  "phaseConsistent s \<Longrightarrow> phaseConsistent (handleKeyboardMovement inp s)"
  by (simp add: handleKeyboardMovement_def Let_def phaseConsistent_startGame
      phaseConsistent_moveLeft phaseConsistent_moveRight)

lemma phaseConsistent_simulate:
  "started s \<Longrightarrow> \<not> paused s \<Longrightarrow> phaseConsistent (simulate inp s)"
  by (simp add: phaseConsistent_def)

lemma phaseConsistent_update: "phaseConsistent s \<Longrightarrow> phaseConsistent (update inp s)"
  by (simp add: update_def Let_def phaseConsistent_keyboard phaseConsistent_gamepad
      phaseConsistent_simulate)

lemma phaseConsistent_step: "phaseConsistent s \<Longrightarrow> phaseConsistent (step e s)"
  by (cases e)
    (simp_all add: phaseConsistent_update phaseConsistent_restart phaseConsistent_shoot
      phaseConsistent_togglePause)

lemma phaseConsistent_run: "phaseConsistent s \<Longrightarrow> phaseConsistent (run evs s)"
  by (induction evs arbitrary: s) (simp_all add: phaseConsistent_step)

lemma phaseConsistent_newGame: "phaseConsistent newGame"
  by (simp add: newGame_def phaseConsistent_initGame)

text \<open>
  C9. In every state reachable from the initial state, under any sequence of key events
  and frames, the flags \<open>started\<close>, \<open>paused\<close>, \<open>gameOver\<close> encode exactly one of the four
  phases: paused implies started, game over implies started, paused and game over are never
  both true; in particular "paused while not started" is unreachable.
\<close>

theorem phases_mutually_exclusive:
  "(paused (run evs newGame) \<longrightarrow> started (run evs newGame))
   \<and> \<not> (paused (run evs newGame) \<and> gameOver (run evs newGame))
   \<and> (gameOver (run evs newGame) \<longrightarrow> started (run evs newGame))
   \<and> \<not> (paused (run evs newGame) \<and> \<not> started (run evs newGame))"
  using phaseConsistent_run[OF phaseConsistent_newGame, of evs]
  by (auto simp add: phaseConsistent_def)

text \<open>C9, witness: after Space and P the game is paused, started and not over.\<close>

theorem phases_mutually_exclusive_witness:
  "paused (run [KeySpace, KeyP] newGame) \<and> started (run [KeySpace, KeyP] newGame)
   \<and> \<not> gameOver (run [KeySpace, KeyP] newGame)"
proof -
  have p: "paused (run [KeySpace, KeyP] newGame)"
    by (simp add: shoot_def startGame_def togglePause_def)
  with phases_mutually_exclusive[of "[KeySpace, KeyP]"] show ?thesis by blast
qed

end
